theory Spec2Isabelle
  imports Main "HOL-Library.Multiset"
begin

section \<open>Payloads\<close>

text \<open>
  Entity payloads are untyped JSON values (\<^verbatim>\<open>data: any\<close>); \<open>JUndefined\<close> is the value
  of a field that the request does not carry. Dates travel as epoch milliseconds.
\<close>

datatype json =
    JUndefined
  | JNull
  | JBool bool
  | JNum int
  | JStr string
  | JArr "json list"
  | JObj "(string \<times> json) list"

text \<open>JavaScript truthiness, as used by \<^verbatim>\<open>if (!mergedData)\<close> and \<^verbatim>\<open>if (data && ...)\<close>.\<close>

fun truthy :: "json \<Rightarrow> bool" where
  "truthy JUndefined = False"
| "truthy JNull = False"
| "truthy (JBool b) = b"
| "truthy (JNum n) = (n \<noteq> 0)"
| "truthy (JStr s) = (s \<noteq> [])"
| "truthy (JArr _) = True"
| "truthy (JObj _) = True"

text \<open>
  \<^verbatim>\<open>{...data}\<close>: the own enumerable fields. An object gives its fields, an array its
  elements under the keys \<^verbatim>\<open>"0"\<close>, \<^verbatim>\<open>"1"\<close>, ..., a string its characters under the same
  keys; \<^verbatim>\<open>undefined\<close>, \<^verbatim>\<open>null\<close>, booleans and numbers give nothing.
\<close>

definition digit :: "nat \<Rightarrow> char" where
  "digit n = ''0123456789'' ! n"

function decimal :: "nat \<Rightarrow> string" where
  "decimal n = (if n < 10 then [digit n] else decimal (n div 10) @ [digit (n mod 10)])"
  by pat_completeness auto
termination
  by (relation "measure (\<lambda>n. n)") auto

declare decimal.simps [simp del]

definition index_keys :: "'a list \<Rightarrow> (string \<times> 'a) list" where
  "index_keys xs = zip (map decimal [0..<length xs]) xs"

fun spread :: "json \<Rightarrow> (string \<times> json) list" where
  "spread (JObj fs) = fs"
| "spread (JArr xs) = index_keys xs"
| "spread (JStr s) = index_keys (map (\<lambda>c. JStr [c]) s)"
| "spread _ = []"

text \<open>A later key of an object literal overwrites an earlier one in place, or is appended.\<close>

fun set_field :: "string \<Rightarrow> json \<Rightarrow> (string \<times> json) list \<Rightarrow> (string \<times> json) list" where
  "set_field k v [] = [(k, v)]"
| "set_field k v (p # ps) = (if fst p = k then (k, v) # ps else p # set_field k v ps)"

text \<open>\<^verbatim>\<open>delete data[field]\<close> on the object returned by the store.\<close>

fun delete_field :: "string \<Rightarrow> json \<Rightarrow> json" where
  "delete_field k (JObj fs) = JObj (filter (\<lambda>p. fst p \<noteq> k) fs)"
| "delete_field k v = v"

section \<open>Server: data model (sync.types.ts, migration.sql)\<close>

text \<open>
  \<^verbatim>\<open>SyncRecord\<close> as pushed by a client. \<^verbatim>\<open>action\<close> and the entity type are strings, so
  that the \<^verbatim>\<open>default\<close> branches of the service stay branches of the model. Timestamps
  are epoch milliseconds.
\<close>

record sync_record =
  rec_id :: string
  rec_entityType :: string
  rec_entityId :: string
  rec_action :: string
  rec_data :: json
  rec_timestamp :: nat
  rec_userId :: string
  rec_version :: nat

text \<open>A row of the table \<^verbatim>\<open>sync_logs\<close> (primary key \<^verbatim>\<open>id\<close>).\<close>

record sync_log_row =
  log_id :: string
  log_entityType :: string
  log_entityId :: string
  log_action :: string
  log_data :: json
  log_userId :: string
  log_timestamp :: nat
  log_version :: nat
  log_checksum :: string

record sync_token =
  tok_userId :: string
  tok_lastSyncTimestamp :: nat
  tok_entityVersions :: "string \<rightharpoonup> nat"

record pull_request =
  pull_lastSyncTimestamp :: "nat option"
  pull_entityTypes :: "string list option"
  pull_limit :: "nat option"

record pull_response =
  pull_records :: "sync_record list"
  pull_syncToken :: sync_token
  pull_hasMore :: bool
  pull_serverTimestamp :: nat

record conflict_data =
  cd_serverVersion :: nat
  cd_clientVersion :: nat
  cd_serverData :: json
  cd_clientData :: json

record rejection =
  rej_id :: string
  rej_reason :: string
  rej_conflictData :: "conflict_data option"

record push_request =
  push_records :: "sync_record list"
  push_syncToken :: sync_token

record push_response =
  push_accepted :: "string list"
  push_rejected :: "rejection list"
  push_newSyncToken :: sync_token
  push_serverTimestamp :: nat

record conflict_resolution =
  res_recordId :: string
  res_strategy :: string
  res_mergedData :: "json option"

record sync_status =
  st_userId :: string
  st_lastSyncTimestamp :: nat
  st_pendingChanges :: nat
  st_isOnline :: bool
  st_syncInProgress :: bool

record entity_sync_config =
  cfg_entityType :: string
  cfg_tableName :: string
  cfg_includes :: "string list option"
  cfg_excludeFields :: "string list option"
  cfg_softDelete :: "bool option"

section \<open>Server: collaborators and state\<close>

text \<open>
  The Prisma delegates of the entity tables (\<^verbatim>\<open>prisma.user\<close>, \<^verbatim>\<open>prisma.task\<close>,
  \<^verbatim>\<open>prisma.project\<close>) and the MD5 digest are library code: they are parameters of the
  service. A write returns the error message it throws (\<open>Inl\<close>) or the new contents of the
  entity tables. \<open>has_model t\<close> says that \<^verbatim>\<open>prisma[t]\<close> is defined; \<open>model_findUnique\<close>
  takes the table, the id and the relations to include and returns \<^verbatim>\<open>null\<close> for a missing
  row.
\<close>

record 'db platform =
  has_model :: "string \<Rightarrow> bool"
  model_findUnique :: "string \<Rightarrow> string \<Rightarrow> string list \<Rightarrow> 'db \<Rightarrow> json"
  model_create :: "string \<Rightarrow> json \<Rightarrow> 'db \<Rightarrow> string + 'db"
  model_update :: "string \<Rightarrow> string \<Rightarrow> json \<Rightarrow> 'db \<Rightarrow> string + 'db"
  model_delete :: "string \<Rightarrow> string \<Rightarrow> 'db \<Rightarrow> string + 'db"
  md5_hex :: "json \<Rightarrow> string"

text \<open>
  The persistent state: the entity tables and the audit log \<^verbatim>\<open>sync_logs\<close> in insertion
  order. The database is taken to be reachable, and the authenticated user to exist, so
  that the foreign key of \<^verbatim>\<open>sync_logs.userId\<close> holds. Each service call reads the
  clock once: every \<^verbatim>\<open>new Date()\<close> of one call is the argument \<open>now\<close>. The functions
  \<open>pushData\<close>, \<open>pullData\<close> and \<open>resolveConflict\<close> are one call running alone; the awaited
  steps they are made of are definitions of their own, so that the steps of two calls can be
  written one after the other in any order.
\<close>

record 'db server =
  entities :: 'db
  syncLog :: "sync_log_row list"

text \<open>\<^verbatim>\<open>initializeEntityConfigs\<close>: the registry, in insertion order.\<close>

definition entityConfigs :: "(string \<times> entity_sync_config) list" where
  "entityConfigs =
    [(''user'', \<lparr>cfg_entityType = ''user'', cfg_tableName = ''user'', cfg_includes = None,
        cfg_excludeFields = Some [''password'', ''refreshToken''], cfg_softDelete = None\<rparr>),
     (''task'', \<lparr>cfg_entityType = ''task'', cfg_tableName = ''task'',
        cfg_includes = Some [''assignee'', ''project''], cfg_excludeFields = None,
        cfg_softDelete = None\<rparr>),
     (''project'', \<lparr>cfg_entityType = ''project'', cfg_tableName = ''project'',
        cfg_includes = Some [''members''], cfg_excludeFields = None, cfg_softDelete = None\<rparr>)]"

section \<open>Server: queries on the audit log\<close>

text \<open>
  \<^verbatim>\<open>findFirst({where, orderBy: {k: 'desc'}})\<close>: the matching row with the greatest key,
  the earliest such row among equals; \<open>None\<close> is \<^verbatim>\<open>null\<close>.
\<close>

definition findFirst_desc ::
  "(sync_log_row \<Rightarrow> nat) \<Rightarrow> (sync_log_row \<Rightarrow> bool) \<Rightarrow> sync_log_row list \<Rightarrow> sync_log_row option" where
  "findFirst_desc k P rows =
    (case filter P rows of
       [] \<Rightarrow> None
     | r # rs \<Rightarrow> Some (fold (\<lambda>x best. if k best < k x then x else best) rs r))"

text \<open>
  \<^verbatim>\<open>findMany({where, orderBy: {timestamp: 'asc'}, take})\<close>; rows of equal timestamp stay in
  insertion order.
\<close>

definition findMany_timestamp_asc ::
  "(sync_log_row \<Rightarrow> bool) \<Rightarrow> nat \<Rightarrow> sync_log_row list \<Rightarrow> sync_log_row list" where
  "findMany_timestamp_asc P n rows = take n (sort_key log_timestamp (filter P rows))"

text \<open>\<^verbatim>\<open>findUnique({where: {id}})\<close>.\<close>

definition findUnique_id :: "string \<Rightarrow> sync_log_row list \<Rightarrow> sync_log_row option" where
  "findUnique_id i rows = find (\<lambda>r. log_id r = i) rows"

text \<open>\<^verbatim>\<open>latestRecord?.version || 0\<close>.\<close>

definition version_or_0 :: "sync_log_row option \<Rightarrow> nat" where
  "version_or_0 r = (case r of None \<Rightarrow> 0 | Some x \<Rightarrow> log_version x)"

section \<open>Server: SyncService\<close>

text \<open>\<^verbatim>\<open>createSyncToken\<close>: one entry per registered entity type, from the user's own rows.\<close>

definition createSyncToken :: "string \<Rightarrow> nat \<Rightarrow> 'db server \<Rightarrow> sync_token" where
  "createSyncToken userId now s =
    \<lparr>tok_userId = userId,
     tok_lastSyncTimestamp = now,
     tok_entityVersions =
       fold (\<lambda>entityType m.
               m(entityType \<mapsto>
                 version_or_0 (findFirst_desc log_version
                   (\<lambda>r. log_entityType r = entityType \<and> log_userId r = userId) (syncLog s))))
            (map fst entityConfigs) Map.empty\<rparr>"

text \<open>\<^verbatim>\<open>getSyncStatus\<close>. \<^verbatim>\<open>new Date(0)\<close> is the epoch.\<close>

definition getSyncStatus :: "string \<Rightarrow> 'db server \<Rightarrow> sync_status" where
  "getSyncStatus userId s =
    (let lastSync = findFirst_desc log_timestamp (\<lambda>r. log_userId r = userId) (syncLog s);
         pendingChanges = 0
     in \<lparr>st_userId = userId,
         st_lastSyncTimestamp = (case lastSync of None \<Rightarrow> 0 | Some r \<Rightarrow> log_timestamp r),
         st_pendingChanges = pendingChanges,
         st_isOnline = True,
         st_syncInProgress = False\<rparr>)"

text \<open>\<^verbatim>\<open>getEntityData\<close>: the current row, with the configured fields deleted.\<close>

definition getEntityData ::
  "'db platform \<Rightarrow> string \<Rightarrow> string \<Rightarrow> entity_sync_config \<Rightarrow> 'db \<Rightarrow> string + json" where
  "getEntityData P tableName entityId config db =
    (if \<not> has_model P tableName then Inl (''Model '' @ tableName @ '' not found'')
     else
       let includeOptions = (case cfg_includes config of None \<Rightarrow> [] | Some incl \<Rightarrow> incl);
           data = model_findUnique P tableName entityId includeOptions db
       in Inr (case cfg_excludeFields config of
                 None \<Rightarrow> data
               | Some excluded \<Rightarrow> if truthy data then fold delete_field excluded data else data))"

text \<open>
  \<^verbatim>\<open>detectConflict\<close>: \<open>Inr None\<close> is \<^verbatim>\<open>null\<close> (no conflict), \<open>Inl\<close> the message of
  the error that \<^verbatim>\<open>getEntityData\<close> throws.
\<close>

definition serverVersion :: "sync_record \<Rightarrow> 'db server \<Rightarrow> nat" where
  "serverVersion record s =
    version_or_0 (findFirst_desc log_version
      (\<lambda>r. log_entityType r = rec_entityType record \<and> log_entityId r = rec_entityId record)
      (syncLog s))"

definition clientVersion :: "sync_record \<Rightarrow> sync_token \<Rightarrow> nat" where
  "clientVersion record syncToken =
    (case tok_entityVersions syncToken (rec_entityType record) of None \<Rightarrow> 0 | Some v \<Rightarrow> v)"

definition detectConflict ::
  "'db platform \<Rightarrow> sync_record \<Rightarrow> sync_token \<Rightarrow> 'db server \<Rightarrow> string + conflict_data option" where
  "detectConflict P record syncToken s =
    (case map_of entityConfigs (rec_entityType record) of
       None \<Rightarrow> Inr None
     | Some config \<Rightarrow>
         if clientVersion record syncToken < serverVersion record s then
           (case getEntityData P (cfg_tableName config) (rec_entityId record) config (entities s) of
              Inl msg \<Rightarrow> Inl msg
            | Inr serverData \<Rightarrow>
                Inr (Some \<lparr>cd_serverVersion = serverVersion record s,
                           cd_clientVersion = clientVersion record syncToken,
                           cd_serverData = serverData,
                           cd_clientData = rec_data record\<rparr>))
         else Inr None)"

text \<open>
  \<^verbatim>\<open>applyChange\<close>: one write to the entity table. \<open>Inl\<close> is the message of the error
  thrown, by the service itself or by the store; the state is then as before.
\<close>

definition applyChange ::
  "'db platform \<Rightarrow> sync_record \<Rightarrow> string \<Rightarrow> nat \<Rightarrow> 'db server \<Rightarrow> string + 'db server" where
  "applyChange P record userId now s =
    (case map_of entityConfigs (rec_entityType record) of
       None \<Rightarrow> Inl (''Entity type '' @ rec_entityType record @ '' not configured'')
     | Some config \<Rightarrow>
         if \<not> has_model P (cfg_tableName config)
         then Inl (''Model '' @ cfg_tableName config @ '' not found'')
         else
           let written =
             (if rec_action record = ''CREATE'' then
                model_create P (cfg_tableName config)
                  (JObj (set_field ''updatedAt'' (JNum (int now))
                          (set_field ''createdAt'' (JNum (int now))
                            (set_field ''id'' (JStr (rec_entityId record))
                              (spread (rec_data record))))))
                  (entities s)
              else if rec_action record = ''UPDATE'' then
                model_update P (cfg_tableName config) (rec_entityId record)
                  (JObj (set_field ''updatedAt'' (JNum (int now)) (spread (rec_data record))))
                  (entities s)
              else if rec_action record = ''DELETE'' then
                (if cfg_softDelete config = Some True then
                   model_update P (cfg_tableName config) (rec_entityId record)
                     (JObj [(''deleted'', JBool True), (''deletedAt'', JNum (int now))])
                     (entities s)
                 else model_delete P (cfg_tableName config) (rec_entityId record) (entities s))
              else Inl (''Unknown action: '' @ rec_action record))
           in (case written of
                 Inl msg \<Rightarrow> Inl msg
               | Inr db \<Rightarrow> Inr (s\<lparr>entities := db\<rparr>)))"

text \<open>
  \<^verbatim>\<open>prisma.syncLog.create\<close>: the primary key of \<^verbatim>\<open>sync_logs\<close> refuses a row whose id
  is in the table.
\<close>

definition unique_violation :: string where
  "unique_violation = ''Unique constraint failed on the fields: (id)''"

definition syncLog_create :: "sync_log_row \<Rightarrow> 'db server \<Rightarrow> string + 'db server" where
  "syncLog_create row s =
    (if log_id row \<in> set (map log_id (syncLog s)) then Inl unique_violation
     else Inr (s\<lparr>syncLog := syncLog s @ [row]\<rparr>))"

text \<open>
  \<^verbatim>\<open>generateChecksum\<close>: \<^verbatim>\<open>JSON.stringify\<close> of an absent payload is \<^verbatim>\<open>undefined\<close>, which
  the hash refuses with a \<^verbatim>\<open>TypeError\<close>; \<open>checksum_error\<close> is its message, the argument name
  between quotation marks (character 0x22).
\<close>

definition checksum_error :: string where
  "checksum_error =
     ''The '' @ [CHR 0x22] @ ''data'' @ [CHR 0x22]
       @ '' argument must be of type string or an instance of Buffer, TypedArray, or DataView. Received undefined''"

definition generateChecksum :: "'db platform \<Rightarrow> json \<Rightarrow> string + string" where
  "generateChecksum P data =
    (if data = JUndefined then Inl checksum_error else Inr (md5_hex P data))"

text \<open>
  \<^verbatim>\<open>logSyncRecord\<close> has two awaits: the read of the latest row of the entity, which gives
  the next version, and the insert of the new row, whose checksum is computed first. Nothing
  holds the table between the two, so they are two definitions; \<open>logSyncRecord\<close> is the one
  after the other with no other request in between.
\<close>

definition nextVersion :: "sync_record \<Rightarrow> 'db server \<Rightarrow> nat" where
  "nextVersion record s =
    (let latestRecord = findFirst_desc log_version
           (\<lambda>r. log_entityType r = rec_entityType record \<and> log_entityId r = rec_entityId record)
           (syncLog s)
     in version_or_0 latestRecord + 1)"

definition logSyncRecord_create ::
  "'db platform \<Rightarrow> sync_record \<Rightarrow> string \<Rightarrow> nat \<Rightarrow> nat \<Rightarrow> 'db server \<Rightarrow> string + 'db server" where
  "logSyncRecord_create P record userId now version s =
    (case generateChecksum P (rec_data record) of
       Inl msg \<Rightarrow> Inl msg
     | Inr checksum \<Rightarrow>
         syncLog_create
           \<lparr>log_id = rec_id record,
            log_entityType = rec_entityType record,
            log_entityId = rec_entityId record,
            log_action = rec_action record,
            log_data = rec_data record,
            log_userId = userId,
            log_timestamp = now,
            log_version = version,
            log_checksum = checksum\<rparr> s)"

definition logSyncRecord ::
  "'db platform \<Rightarrow> sync_record \<Rightarrow> string \<Rightarrow> nat \<Rightarrow> 'db server \<Rightarrow> string + 'db server" where
  "logSyncRecord P record userId now s =
    logSyncRecord_create P record userId now (nextVersion record s) s"

text \<open>
  The body of the loop of \<^verbatim>\<open>pushData\<close>, on the state and the two result arrays. An
  error thrown inside \<^verbatim>\<open>try\<close> is caught and reported with its message; what was
  written before it stays written.
\<close>

definition rejected_with :: "sync_record \<Rightarrow> string \<Rightarrow> rejection" where
  "rejected_with record msg = \<lparr>rej_id = rec_id record, rej_reason = msg, rej_conflictData = None\<rparr>"

fun pushRecord ::
  "'db platform \<Rightarrow> string \<Rightarrow> sync_token \<Rightarrow> nat \<Rightarrow> sync_record \<Rightarrow>
   'db server \<times> string list \<times> rejection list \<Rightarrow> 'db server \<times> string list \<times> rejection list" where
  "pushRecord P userId syncToken now record (s, accepted, rejected) =
    (case detectConflict P record syncToken s of
       Inl msg \<Rightarrow> (s, accepted, rejected @ [rejected_with record msg])
     | Inr (Some conflict) \<Rightarrow>
         (s, accepted,
          rejected @ [\<lparr>rej_id = rec_id record, rej_reason = ''CONFLICT'',
                       rej_conflictData = Some conflict\<rparr>])
     | Inr None \<Rightarrow>
         (case applyChange P record userId now s of
            Inl msg \<Rightarrow> (s, accepted, rejected @ [rejected_with record msg])
          | Inr s1 \<Rightarrow>
              (case logSyncRecord P record userId now s1 of
                 Inl msg \<Rightarrow> (s1, accepted, rejected @ [rejected_with record msg])
               | Inr s2 \<Rightarrow> (s2, accepted @ [rec_id record], rejected))))"

declare pushRecord.simps [simp del]

text \<open>\<^verbatim>\<open>pushData\<close>: the response and the state it leaves.\<close>

definition pushLoop ::
  "'db platform \<Rightarrow> string \<Rightarrow> sync_token \<Rightarrow> nat \<Rightarrow> sync_record list \<Rightarrow>
   'db server \<times> string list \<times> rejection list \<Rightarrow> 'db server \<times> string list \<times> rejection list" where
  "pushLoop P userId syncToken now records acc = fold (pushRecord P userId syncToken now) records acc"

definition pushData ::
  "'db platform \<Rightarrow> string \<Rightarrow> push_request \<Rightarrow> nat \<Rightarrow> 'db server \<Rightarrow> push_response \<times> 'db server" where
  "pushData P userId request now s =
    (case pushLoop P userId (push_syncToken request) now (push_records request) (s, [], []) of
       (s', accepted, rejected) \<Rightarrow>
         (\<lparr>push_accepted = accepted,
           push_rejected = rejected,
           push_newSyncToken = createSyncToken userId now s',
           push_serverTimestamp = now\<rparr>, s'))"

text \<open>
  \<^verbatim>\<open>pullData\<close>. The inner loop re-reads the current entity for every row that is not a
  DELETE; an error of \<^verbatim>\<open>getEntityData\<close> is not caught and fails the pull.
\<close>

fun pullRows ::
  "'db platform \<Rightarrow> entity_sync_config \<Rightarrow> 'db \<Rightarrow> sync_log_row list \<Rightarrow> sync_record list \<Rightarrow>
   string + sync_record list" where
  "pullRows P config db [] records = Inr records"
| "pullRows P config db (syncRecord # rest) records =
    (case (if log_action syncRecord \<noteq> ''DELETE''
           then getEntityData P (cfg_tableName config) (log_entityId syncRecord) config db
           else Inr JNull) of
       Inl msg \<Rightarrow> Inl msg
     | Inr entityData \<Rightarrow>
         pullRows P config db rest
           (records @ [\<lparr>rec_id = log_id syncRecord,
                        rec_entityType = log_entityType syncRecord,
                        rec_entityId = log_entityId syncRecord,
                        rec_action = log_action syncRecord,
                        rec_data = entityData,
                        rec_timestamp = log_timestamp syncRecord,
                        rec_userId = log_userId syncRecord,
                        rec_version = log_version syncRecord\<rparr>]))"

fun pullTypes ::
  "'db platform \<Rightarrow> string \<Rightarrow> nat \<Rightarrow> nat \<Rightarrow> 'db server \<Rightarrow> string list \<Rightarrow> sync_record list \<Rightarrow>
   string + sync_record list" where
  "pullTypes P userId since limit s [] records = Inr records"
| "pullTypes P userId since limit s (entityType # rest) records =
    (case map_of entityConfigs entityType of
       None \<Rightarrow> pullTypes P userId since limit s rest records
     | Some config \<Rightarrow>
         (case pullRows P config (entities s)
                 (findMany_timestamp_asc
                    (\<lambda>r. log_entityType r = entityType \<and> since < log_timestamp r
                         \<and> log_userId r \<noteq> userId)
                    limit (syncLog s))
                 records of
            Inl msg \<Rightarrow> Inl msg
          | Inr records' \<Rightarrow> pullTypes P userId since limit s rest records'))"

definition pullData ::
  "'db platform \<Rightarrow> string \<Rightarrow> pull_request \<Rightarrow> nat \<Rightarrow> 'db server \<Rightarrow> string + pull_response" where
  "pullData P userId request now s =
    (let entityTypes = (case pull_entityTypes request of
                          None \<Rightarrow> map fst entityConfigs | Some ts \<Rightarrow> ts);
         limit = (case pull_limit request of None \<Rightarrow> 100 | Some l \<Rightarrow> l);
         since = (case pull_lastSyncTimestamp request of None \<Rightarrow> 0 | Some t \<Rightarrow> t)
     in case pullTypes P userId since limit s entityTypes [] of
          Inl msg \<Rightarrow> Inl msg
        | Inr records \<Rightarrow>
            Inr \<lparr>pull_records = records,
                 pull_syncToken = createSyncToken userId now s,
                 pull_hasMore = (length records = limit),
                 pull_serverTimestamp = now\<rparr>)"

text \<open>
  \<^verbatim>\<open>resolveConflict\<close>. \<open>uuid\<close> is the value of \<^verbatim>\<open>crypto.randomUUID()\<close>. The result is
  the error thrown (\<open>Inl\<close>) or a normal return, with the state left behind in both cases.
\<close>

definition row_as_record :: "sync_log_row \<Rightarrow> sync_record" where
  "row_as_record r =
    \<lparr>rec_id = log_id r, rec_entityType = log_entityType r, rec_entityId = log_entityId r,
     rec_action = log_action r, rec_data = log_data r, rec_timestamp = log_timestamp r,
     rec_userId = log_userId r, rec_version = log_version r\<rparr>"

definition resolveConflict ::
  "'db platform \<Rightarrow> string \<Rightarrow> conflict_resolution \<Rightarrow> nat \<Rightarrow> string \<Rightarrow> 'db server \<Rightarrow>
   (string + unit) \<times> 'db server" where
  "resolveConflict P userId resolution now uuid s =
    (case findUnique_id (res_recordId resolution) (syncLog s) of
       None \<Rightarrow> (Inl ''Sync record not found'', s)
     | Some syncRecord \<Rightarrow>
         if res_strategy resolution = ''SERVER_WINS'' then (Inr (), s)
         else
           (case (if res_strategy resolution = ''CLIENT_WINS'' then Inr (log_data syncRecord)
                  else if res_strategy resolution = ''MERGE'' then
                    (case res_mergedData resolution of
                       None \<Rightarrow> Inl ''Merged data required for MERGE strategy''
                     | Some mergedData \<Rightarrow>
                         if truthy mergedData then Inr mergedData
                         else Inl ''Merged data required for MERGE strategy'')
                  else Inl (''Unknown resolution strategy: '' @ res_strategy resolution)) of
              Inl msg \<Rightarrow> (Inl msg, s)
            | Inr finalData \<Rightarrow>
                (case applyChange P ((row_as_record syncRecord)\<lparr>rec_data := finalData\<rparr>)
                        userId now s of
                   Inl msg \<Rightarrow> (Inl msg, s)
                 | Inr s1 \<Rightarrow>
                     (case logSyncRecord P
                             ((row_as_record syncRecord)\<lparr>rec_data := finalData, rec_id := uuid\<rparr>)
                             userId now s1 of
                        Inl msg \<Rightarrow> (Inl msg, s1)
                      | Inr s2 \<Rightarrow> (Inr (), s2)))))"

section \<open>An in-memory store for concrete runs\<close>

text \<open>
  Rows keyed by table and id. \<open>create\<close> refuses an id that exists, \<open>update\<close> and
  \<open>delete\<close> a row that does not; \<open>update\<close> overwrites the fields given.
\<close>

type_synonym mem_db = "((string \<times> string) \<times> json) list"

definition mem_create :: "string \<Rightarrow> json \<Rightarrow> mem_db \<Rightarrow> string + mem_db" where
  "mem_create t d db =
    (case map_of (spread d) ''id'' of
       Some (JStr i) \<Rightarrow>
         if (t, i) \<in> set (map fst db) then Inl unique_violation else Inr (db @ [((t, i), d)])
     | _ \<Rightarrow> Inl ''Argument id is missing'')"

definition mem_update :: "string \<Rightarrow> string \<Rightarrow> json \<Rightarrow> mem_db \<Rightarrow> string + mem_db" where
  "mem_update t i d db =
    (if (t, i) \<in> set (map fst db)
     then Inr (map (\<lambda>(k, v). if k = (t, i)
                              then (k, JObj (fold (\<lambda>(f, x). set_field f x) (spread d) (spread v)))
                              else (k, v)) db)
     else Inl ''Record to update not found'')"

definition mem_delete :: "string \<Rightarrow> string \<Rightarrow> mem_db \<Rightarrow> string + mem_db" where
  "mem_delete t i db =
    (if (t, i) \<in> set (map fst db) then Inr (filter (\<lambda>(k, v). k \<noteq> (t, i)) db)
     else Inl ''Record to delete does not exist'')"

definition mem_platform :: "mem_db platform" where
  "mem_platform =
    \<lparr>has_model = (\<lambda>t. t \<in> set [''user'', ''task'', ''project'']),
     model_findUnique = (\<lambda>t i incl db. case map_of db (t, i) of None \<Rightarrow> JNull | Some v \<Rightarrow> v),
     model_create = mem_create,
     model_update = mem_update,
     model_delete = mem_delete,
     md5_hex = (\<lambda>d. ''md5'')\<rparr>"

section \<open>Client: local store (utils/db) and sync orchestration (useSyncStatus, syncService)\<close>

text \<open>
  An item of the object store \<^verbatim>\<open>syncQueue\<close> (key path \<^verbatim>\<open>id\<close>) and a conflict as the hook
  keeps it. Timestamps are epoch milliseconds.
\<close>

record queue_item =
  qi_id :: string
  qi_entityType :: string
  qi_entityId :: string
  qi_action :: string
  qi_data :: json
  qi_timestamp :: nat
  qi_retryCount :: nat
  qi_lastRetry :: "nat option"

record sync_conflict =
  sc_id :: string
  sc_entityType :: string
  sc_entityId :: string
  sc_serverData :: "json option"
  sc_localData :: "json option"
  sc_timestamp :: nat

record hook_status =
  hs_isSyncing :: bool
  hs_lastSyncAt :: "nat option"
  hs_pendingChanges :: nat
  hs_syncProgress :: nat
  hs_conflicts :: "sync_conflict list"
  hs_syncError :: "string option"

text \<open>
  The client: the authentication flag, the status of the hook, the IndexedDB stores (the
  entity caches by store name and key, the queue, the metadata entries \<^verbatim>\<open>syncConflicts\<close>,
  \<^verbatim>\<open>lastSyncAt\<close> and \<^verbatim>\<open>syncToken\<close>) and the user id of \<^verbatim>\<open>localStorage\<close>. The store
  is taken to be available.
\<close>

record client =
  cl_isAuthenticated :: bool
  cl_status :: hook_status
  cl_cache :: "string \<Rightarrow> json \<rightharpoonup> json"
  cl_syncQueue :: "queue_item list"
  cl_syncConflicts :: "sync_conflict list option"
  cl_lastSyncAt :: "nat option"
  cl_syncToken :: "sync_token option"
  cl_userId :: "string option"

text \<open>
  \<^verbatim>\<open>offlineDB.update\<close> is a \<^verbatim>\<open>put\<close>: the key is the \<^verbatim>\<open>id\<close> of the value, a string or a
  number (array keys are left out); any other \<^verbatim>\<open>id\<close> is a \<^verbatim>\<open>DataError\<close>.
  \<^verbatim>\<open>offlineDB.delete\<close> and \<^verbatim>\<open>removeSyncQueueItem\<close> delete by key, a missing key included.
\<close>

definition offlineDB_update :: "string \<Rightarrow> json \<Rightarrow> client \<Rightarrow> string + client" where
  "offlineDB_update storeName data c =
    (case map_of (spread data) ''id'' of
       Some (JStr k) \<Rightarrow> Inr (c\<lparr>cl_cache := (cl_cache c)(storeName := (cl_cache c storeName)(JStr k \<mapsto> data))\<rparr>)
     | Some (JNum k) \<Rightarrow> Inr (c\<lparr>cl_cache := (cl_cache c)(storeName := (cl_cache c storeName)(JNum k \<mapsto> data))\<rparr>)
     | _ \<Rightarrow> Inl ''DataError'')"

definition offlineDB_delete :: "string \<Rightarrow> string \<Rightarrow> client \<Rightarrow> client" where
  "offlineDB_delete storeName key c =
    c\<lparr>cl_cache := (cl_cache c)(storeName := (cl_cache c storeName)(JStr key := None))\<rparr>"

definition removeSyncQueueItem :: "string \<Rightarrow> client \<Rightarrow> client" where
  "removeSyncQueueItem i c = c\<lparr>cl_syncQueue := filter (\<lambda>q. qi_id q \<noteq> i) (cl_syncQueue c)\<rparr>"

text \<open>
  \<^verbatim>\<open>applyServerChange\<close> with \<^verbatim>\<open>applyTaskChange\<close>, \<^verbatim>\<open>applyProjectChange\<close> and
  \<^verbatim>\<open>applyMessageChange\<close>: an upsert of \<^verbatim>\<open>{id: entityId, ...data, syncStatus, lastSyncedAt}\<close>
  or a delete; other entity types are logged and skipped, other actions do nothing.
\<close>

definition applyEntityChange ::
  "string \<Rightarrow> string \<Rightarrow> string \<Rightarrow> json \<Rightarrow> nat \<Rightarrow> client \<Rightarrow> string + client" where
  "applyEntityChange storeName entityId action data now c =
    (if action = ''CREATE'' \<or> action = ''UPDATE'' then
       offlineDB_update storeName
         (JObj (set_field ''lastSyncedAt'' (JNum (int now))
                 (set_field ''syncStatus'' (JStr ''synced'')
                   (fold (\<lambda>(k, v). set_field k v) (spread data) [(''id'', JStr entityId)]))))
         c
     else if action = ''DELETE'' then Inr (offlineDB_delete storeName entityId c)
     else Inr c)"

definition applyServerChange :: "sync_record \<Rightarrow> nat \<Rightarrow> client \<Rightarrow> string + client" where
  "applyServerChange record now c =
    (if rec_entityType record = ''task'' then
       applyEntityChange ''tasks'' (rec_entityId record) (rec_action record) (rec_data record) now c
     else if rec_entityType record = ''project'' then
       applyEntityChange ''projects'' (rec_entityId record) (rec_action record) (rec_data record) now c
     else if rec_entityType record = ''message'' then
       applyEntityChange ''messages'' (rec_entityId record) (rec_action record) (rec_data record) now c
     else Inr c)"

text \<open>
  \<^verbatim>\<open>pullChanges\<close>: the reply of the server is an argument, \<open>Inl\<close> a failed request. The
  result is the error thrown or the reply, with the client as it is left.
\<close>

fun applyPulled :: "sync_record list \<Rightarrow> nat \<Rightarrow> client \<Rightarrow> (string + unit) \<times> client" where
  "applyPulled [] now c = (Inr (), c)"
| "applyPulled (record # rest) now c =
    (case applyServerChange record now c of
       Inl msg \<Rightarrow> (Inl msg, c)
     | Inr c' \<Rightarrow> applyPulled rest now c')"

definition pullChanges ::
  "(string + pull_response) \<Rightarrow> nat \<Rightarrow> client \<Rightarrow> (string + pull_response) \<times> client" where
  "pullChanges reply now c =
    (case reply of
       Inl msg \<Rightarrow> (Inl msg, c)
     | Inr result \<Rightarrow>
         (case applyPulled (pull_records result) now c of
            (Inl msg, c') \<Rightarrow> (Inl msg, c')
          | (Inr _, c') \<Rightarrow> (Inr result, c')))"

text \<open>
  \<^verbatim>\<open>pushChanges\<close>: the request built from the queue and the stored token (the initial
  token when none is stored), and the stored token replaced by the one of the reply. The
  server is the function from the request to its reply.
\<close>

definition getSyncToken :: "client \<Rightarrow> sync_token" where
  "getSyncToken c =
    (case cl_syncToken c of
       Some token \<Rightarrow> token
     | None \<Rightarrow> \<lparr>tok_userId = (case cl_userId c of None \<Rightarrow> [] | Some u \<Rightarrow> u),
                 tok_lastSyncTimestamp = 0, tok_entityVersions = Map.empty\<rparr>)"

definition pushRequest :: "queue_item list \<Rightarrow> client \<Rightarrow> push_request" where
  "pushRequest records c =
    \<lparr>push_records =
       map (\<lambda>record. \<lparr>rec_id = qi_id record, rec_entityType = qi_entityType record,
                       rec_entityId = qi_entityId record, rec_action = qi_action record,
                       rec_data = qi_data record, rec_timestamp = qi_timestamp record,
                       rec_userId = [], rec_version = 1\<rparr>) records,
     push_syncToken = getSyncToken c\<rparr>"

definition pushChanges ::
  "(push_request \<Rightarrow> string + push_response) \<Rightarrow> queue_item list \<Rightarrow> client \<Rightarrow>
   (string + push_response) \<times> client" where
  "pushChanges server records c =
    (case server (pushRequest records c) of
       Inl msg \<Rightarrow> (Inl msg, c)
     | Inr result \<Rightarrow> (Inr result, c\<lparr>cl_syncToken := Some (push_newSyncToken result)\<rparr>))"

text \<open>
  \<^verbatim>\<open>triggerSync\<close>. The conflicts of the hook are built from the rejections with reason
  CONFLICT; the accepted ids are removed from the queue. The timer that resets the progress
  a second later is not part of the call.
\<close>

definition conflictOf :: "queue_item list \<Rightarrow> nat \<Rightarrow> rejection \<Rightarrow> sync_conflict" where
  "conflictOf queue now item =
    \<lparr>sc_id = rej_id item,
     sc_entityType = (case find (\<lambda>q. qi_id q = rej_id item) queue of
                        None \<Rightarrow> ''unknown''
                      | Some q \<Rightarrow> if qi_entityType q = [] then ''unknown'' else qi_entityType q),
     sc_entityId = (case find (\<lambda>q. qi_id q = rej_id item) queue of
                      None \<Rightarrow> [] | Some q \<Rightarrow> qi_entityId q),
     sc_serverData = map_option cd_serverData (rej_conflictData item),
     sc_localData = map_option cd_clientData (rej_conflictData item),
     sc_timestamp = now\<rparr>"

definition set_status :: "(hook_status \<Rightarrow> hook_status) \<Rightarrow> client \<Rightarrow> client" where
  "set_status f c = c\<lparr>cl_status := f (cl_status c)\<rparr>"

definition sync_failed :: "string \<Rightarrow> client \<Rightarrow> bool \<times> client" where
  "sync_failed msg c =
    (False, set_status (\<lambda>prev. prev\<lparr>hs_isSyncing := False, hs_syncProgress := 0,
                                      hs_syncError := Some msg\<rparr>) c)"

definition finalize :: "nat \<Rightarrow> client \<Rightarrow> bool \<times> client" where
  "finalize now c =
    (let c1 = set_status (\<lambda>prev. prev\<lparr>hs_syncProgress := 90\<rparr>) c;
         c2 = c1\<lparr>cl_lastSyncAt := Some now\<rparr>;
         c3 = set_status (\<lambda>prev. prev\<lparr>hs_syncProgress := 100, hs_lastSyncAt := Some now,
                                        hs_isSyncing := False\<rparr>) c2;
         c4 = set_status (\<lambda>prev. prev\<lparr>hs_pendingChanges := length (cl_syncQueue c3)\<rparr>) c3
     in (True, c4))"

definition triggerSync ::
  "(string + pull_response) \<Rightarrow> (push_request \<Rightarrow> string + push_response) \<Rightarrow> nat \<Rightarrow> client \<Rightarrow>
   bool \<times> client" where
  "triggerSync pullReply server now c =
    (if \<not> cl_isAuthenticated c \<or> hs_isSyncing (cl_status c) then (False, c)
     else
       let c0 = set_status (\<lambda>prev. prev\<lparr>hs_isSyncing := True, hs_syncProgress := 10,
                                          hs_syncError := None\<rparr>) c
       in case pullChanges pullReply now c0 of
            (Inl msg, c1) \<Rightarrow> sync_failed msg c1
          | (Inr pullResult, c1) \<Rightarrow>
              let c2 = set_status (\<lambda>prev. prev\<lparr>hs_syncProgress := 30\<rparr>) c1;
                  queue = cl_syncQueue c2
              in if 0 < length queue then
                   (case pushChanges server queue (set_status (\<lambda>prev. prev\<lparr>hs_syncProgress := 40\<rparr>) c2) of
                      (Inl msg, c3) \<Rightarrow> sync_failed msg c3
                    | (Inr pushResult, c3) \<Rightarrow>
                        let c4 = set_status (\<lambda>prev. prev\<lparr>hs_syncProgress := 70\<rparr>) c3;
                            c5 = (if 0 < length (push_rejected pushResult) then
                                    let conflicts = map (conflictOf queue now)
                                          (filter (\<lambda>item. rej_reason item = ''CONFLICT'')
                                             (push_rejected pushResult))
                                    in set_status (\<lambda>prev. prev\<lparr>hs_conflicts := conflicts\<rparr>)
                                         (c4\<lparr>cl_syncConflicts := Some conflicts\<rparr>)
                                  else c4)
                        in finalize now (fold removeSyncQueueItem (push_accepted pushResult) c5))
                 else finalize now c2)"

section \<open>Client: network monitor (useNetworkStatus)\<close>

record network_status =
  isOnline :: bool
  isSlowConnection :: bool
  connectionType :: string
  lastOnlineAt :: "nat option"
  retryAttempts :: nat

text \<open>
  What one probe of \<^verbatim>\<open>checkConnectionQuality\<close> finds, with the time and the connection
  type read when it returns. The probes of a loop are given by attempt.
\<close>

record probe_result =
  pr_isOnline :: bool
  pr_isSlowConnection :: bool
  pr_at :: nat
  pr_connectionType :: string

text \<open>
  \<^verbatim>\<open>retryConnection\<close>, with \<open>maxRetries\<close> a natural number. The second component collects
  the delays of the timers set, one before each probe.
\<close>

function retryConnection ::
  "nat \<Rightarrow> (nat \<Rightarrow> probe_result) \<Rightarrow> nat \<Rightarrow> network_status \<times> nat list \<Rightarrow> network_status \<times> nat list" where
  "retryConnection maxRetries probes attempt (status, delays) =
    (if maxRetries \<le> attempt then (status\<lparr>retryAttempts := attempt\<rparr>, delays)
     else
       let delay = min (1000 * 2 ^ attempt) 30000;
           probe = probes attempt
       in if pr_isOnline probe then
            (status\<lparr>isOnline := True, isSlowConnection := pr_isSlowConnection probe,
                    lastOnlineAt := Some (pr_at probe), retryAttempts := 0,
                    connectionType := pr_connectionType probe\<rparr>, delays @ [delay])
          else retryConnection maxRetries probes (attempt + 1)
                 (status\<lparr>retryAttempts := attempt + 1\<rparr>, delays @ [delay]))"
  by pat_completeness auto
termination
  by (relation "measure (\<lambda>(maxRetries, probes, attempt, acc). maxRetries - attempt)") auto

declare retryConnection.simps [simp del]

section \<open>Notions of the specification\<close>

text \<open>
  The highest version among the rows of the audit log that satisfy \<open>Q\<close>, 0 when there is
  none.
\<close>

definition highest :: "(sync_log_row \<Rightarrow> bool) \<Rightarrow> sync_log_row list \<Rightarrow> nat" where
  "highest Q rows = Max (set (0 # map log_version (filter Q rows)))"

text \<open>The highest audit-log version of an entity: of the pair of entity type and id.\<close>

definition highestVersion :: "string \<Rightarrow> string \<Rightarrow> sync_log_row list \<Rightarrow> nat" where
  "highestVersion entityType entityId rows =
     highest (\<lambda>r. log_entityType r = entityType \<and> log_entityId r = entityId) rows"

text \<open>
  The audit-log entry of a record at a given version: the record's id, entity, action and
  payload, stamped with the pushing user, the time and the checksum. The entry of an
  accepted record has the next version of the entity: one above the highest among the given
  rows.
\<close>

definition logged_row :: "'db platform \<Rightarrow> sync_record \<Rightarrow> string \<Rightarrow> nat \<Rightarrow> nat \<Rightarrow> sync_log_row" where
  "logged_row P record userId now version =
    \<lparr>log_id = rec_id record,
     log_entityType = rec_entityType record,
     log_entityId = rec_entityId record,
     log_action = rec_action record,
     log_data = rec_data record,
     log_userId = userId,
     log_timestamp = now,
     log_version = version,
     log_checksum = md5_hex P (rec_data record)\<rparr>"

definition appended_row :: "'db platform \<Rightarrow> sync_record \<Rightarrow> string \<Rightarrow> nat \<Rightarrow> sync_log_row list \<Rightarrow> sync_log_row" where
  "appended_row P record userId now rows =
    logged_row P record userId now
      (highestVersion (rec_entityType record) (rec_entityId record) rows + 1)"

text \<open>The current entity as the server hands it out: the row without the excluded fields.\<close>

definition serverDataOf :: "'db platform \<Rightarrow> entity_sync_config \<Rightarrow> string \<Rightarrow> 'db \<Rightarrow> json" where
  "serverDataOf P config entityId db =
    (let row = model_findUnique P (cfg_tableName config) entityId
                 (case cfg_includes config of None \<Rightarrow> [] | Some incl \<Rightarrow> incl) db
     in case cfg_excludeFields config of
          None \<Rightarrow> row
        | Some excluded \<Rightarrow> if truthy row then fold delete_field excluded row else row)"

text \<open>The rejection that reports a conflict, with the data for the client's diff.\<close>

definition conflict_rejection ::
  "'db platform \<Rightarrow> entity_sync_config \<Rightarrow> sync_record \<Rightarrow> sync_token \<Rightarrow> 'db server \<Rightarrow> rejection" where
  "conflict_rejection P config record syncToken s =
    \<lparr>rej_id = rec_id record, rej_reason = ''CONFLICT'',
     rej_conflictData = Some
       \<lparr>cd_serverVersion = highestVersion (rec_entityType record) (rec_entityId record) (syncLog s),
        cd_clientVersion = clientVersion record syncToken,
        cd_serverData = serverDataOf P config (rec_entityId record) (entities s),
        cd_clientData = rec_data record\<rparr>\<rparr>"

text \<open>
  \<open>versions_follow rows new\<close>: every row of \<open>new\<close>, appended in order after \<open>rows\<close>, has
  an id that is new and the version one above the highest version of its entity among the
  rows before it.
\<close>

fun versions_follow :: "sync_log_row list \<Rightarrow> sync_log_row list \<Rightarrow> bool" where
  "versions_follow rows [] = True"
| "versions_follow rows (x # xs) =
    (log_version x = highestVersion (log_entityType x) (log_entityId x) rows + 1
     \<and> log_id x \<notin> set (map log_id rows)
     \<and> versions_follow (rows @ [x]) xs)"

text \<open>Two rows share a version of an entity when they have the same key.\<close>

definition version_key :: "sync_log_row \<Rightarrow> string \<times> string \<times> nat" where
  "version_key r = (log_entityType r, log_entityId r, log_version r)"

text \<open>
  The highest version among the rows of an entity type written by one user, and among all
  rows of an entity type.
\<close>

definition highestOwnVersion :: "string \<Rightarrow> string \<Rightarrow> sync_log_row list \<Rightarrow> nat" where
  "highestOwnVersion entityType userId rows =
     highest (\<lambda>r. log_entityType r = entityType \<and> log_userId r = userId) rows"

definition highestTypeVersion :: "string \<Rightarrow> sync_log_row list \<Rightarrow> nat" where
  "highestTypeVersion entityType rows = highest (\<lambda>r. log_entityType r = entityType) rows"

text \<open>
  The rows a pull of one entity type selects, and the record a pull returns for a row: the
  row itself, its payload replaced by the current entity unless the row is a DELETE.
\<close>

definition pending :: "string \<Rightarrow> string \<Rightarrow> nat \<Rightarrow> sync_log_row list \<Rightarrow> sync_log_row list" where
  "pending entityType userId since rows =
     filter (\<lambda>r. log_entityType r = entityType \<and> since < log_timestamp r \<and> log_userId r \<noteq> userId) rows"

definition pulled_record :: "'db platform \<Rightarrow> entity_sync_config \<Rightarrow> 'db \<Rightarrow> sync_log_row \<Rightarrow> sync_record" where
  "pulled_record P config db row =
    \<lparr>rec_id = log_id row, rec_entityType = log_entityType row, rec_entityId = log_entityId row,
     rec_action = log_action row,
     rec_data = (if log_action row \<noteq> ''DELETE'' then serverDataOf P config (log_entityId row) db
                 else JNull),
     rec_timestamp = log_timestamp row, rec_userId = log_userId row,
     rec_version = log_version row\<rparr>"

text \<open>
  The delay before probe \<open>n\<close> of the reconnection loop, and the status after a probe that
  found the server.
\<close>

definition backoff_delay :: "nat \<Rightarrow> nat" where
  "backoff_delay n = min (1000 * 2 ^ n) 30000"

definition came_online :: "probe_result \<Rightarrow> network_status \<Rightarrow> network_status" where
  "came_online probe status =
    status\<lparr>isOnline := True, isSlowConnection := pr_isSlowConnection probe,
           lastOnlineAt := Some (pr_at probe), retryAttempts := 0,
           connectionType := pr_connectionType probe\<rparr>"

section \<open>Concrete inputs\<close>

text \<open>
  A server with one task at version 5, last written by bob, and records that alice pushes.
\<close>

definition ex_row :: "string \<Rightarrow> string \<Rightarrow> string \<Rightarrow> string \<Rightarrow> string \<Rightarrow> nat \<Rightarrow> nat \<Rightarrow> sync_log_row" where
  "ex_row i t e a u ts v = \<lparr>log_id = i, log_entityType = t, log_entityId = e, log_action = a,
     log_data = JNull, log_userId = u, log_timestamp = ts, log_version = v, log_checksum = ''md5''\<rparr>"

definition ex_server :: "mem_db server" where
  "ex_server = \<lparr>entities = [((''task'', ''T1''), JObj [(''id'', JStr ''T1''), (''title'', JStr ''a'')])],
         syncLog = [ex_row ''a1'' ''task'' ''T1'' ''UPDATE'' ''bob'' 10 5]\<rparr>"

definition ex_record :: sync_record where
  "ex_record = \<lparr>rec_id = ''r1'', rec_entityType = ''task'', rec_entityId = ''T1'', rec_action = ''UPDATE'',
     rec_data = JObj [(''title'', JStr ''b'')], rec_timestamp = 20, rec_userId = ''alice'', rec_version = 1\<rparr>"

definition ex_token :: "nat \<Rightarrow> sync_token" where
  "ex_token v = \<lparr>tok_userId = ''alice'', tok_lastSyncTimestamp = 0, tok_entityVersions = [''task'' \<mapsto> v]\<rparr>"

definition ex_task_config :: entity_sync_config where
  "ex_task_config = \<lparr>cfg_entityType = ''task'', cfg_tableName = ''task'',
        cfg_includes = Some [''assignee'', ''project''], cfg_excludeFields = None,
        cfg_softDelete = None\<rparr>"

definition ex_empty :: "mem_db server" where
  "ex_empty = \<lparr>entities = [], syncLog = []\<rparr>"

definition ex_message :: sync_record where
  "ex_message = \<lparr>rec_id = ''m1'', rec_entityType = ''message'', rec_entityId = ''M1'',
     rec_action = ''CREATE'', rec_data = JObj [(''content'', JStr ''hi'')], rec_timestamp = 20,
     rec_userId = ''alice'', rec_version = 1\<rparr>"

definition ex_missing :: sync_record where
  "ex_missing = \<lparr>rec_id = ''r9'', rec_entityType = ''task'', rec_entityId = ''T9'',
     rec_action = ''UPDATE'', rec_data = JObj [(''title'', JStr ''z'')], rec_timestamp = 20,
     rec_userId = ''alice'', rec_version = 1\<rparr>"

definition ex_batch :: "sync_record list" where
  "ex_batch =
    [\<lparr>rec_id = ''c1'', rec_entityType = ''task'', rec_entityId = ''T2'', rec_action = ''CREATE'',
      rec_data = JObj [(''title'', JStr ''x'')], rec_timestamp = 20, rec_userId = ''alice'',
      rec_version = 1\<rparr>,
     \<lparr>rec_id = ''c2'', rec_entityType = ''task'', rec_entityId = ''T2'', rec_action = ''UPDATE'',
      rec_data = JObj [(''title'', JStr ''y'')], rec_timestamp = 21, rec_userId = ''alice'',
      rec_version = 1\<rparr>]"

text \<open>
  Three pushes of alice in a row: \<open>ex_record\<close>, then \<open>ex_second\<close> on the same task, then
  \<open>ex_record\<close> once more, each with the token of the response before.
\<close>

definition ex_second :: sync_record where
  "ex_second = \<lparr>rec_id = ''r2'', rec_entityType = ''task'', rec_entityId = ''T1'',
     rec_action = ''UPDATE'', rec_data = JObj [(''title'', JStr ''c'')], rec_timestamp = 30,
     rec_userId = ''alice'', rec_version = 1\<rparr>"

definition ex_first_push :: "push_response \<times> mem_db server" where
  "ex_first_push = pushData mem_platform ''alice''
     \<lparr>push_records = [ex_record], push_syncToken = ex_token 5\<rparr> 1000 ex_server"

definition ex_second_push :: "push_response \<times> mem_db server" where
  "ex_second_push = pushData mem_platform ''alice''
     \<lparr>push_records = [ex_second], push_syncToken = push_newSyncToken (fst ex_first_push)\<rparr>
     2000 (snd ex_first_push)"

definition ex_resubmit_push :: "push_response \<times> mem_db server" where
  "ex_resubmit_push = pushData mem_platform ''alice''
     \<lparr>push_records = [ex_record], push_syncToken = push_newSyncToken (fst ex_second_push)\<rparr>
     3000 (snd ex_second_push)"

text \<open>
  Five rows of bob for alice to pull: three tasks and two projects, and five tasks.
\<close>

definition ex_pull_all :: "nat option \<Rightarrow> pull_request" where
  "ex_pull_all limit =
     \<lparr>pull_lastSyncTimestamp = None, pull_entityTypes = None, pull_limit = limit\<rparr>"

definition ex_pull_server :: "mem_db server" where
  "ex_pull_server =
    \<lparr>entities = [],
     syncLog = [ex_row ''a1'' ''task'' ''T1'' ''DELETE'' ''bob'' 10 1,
                ex_row ''a2'' ''project'' ''P1'' ''DELETE'' ''bob'' 20 1,
                ex_row ''a3'' ''task'' ''T2'' ''DELETE'' ''bob'' 30 1,
                ex_row ''a4'' ''project'' ''P2'' ''DELETE'' ''bob'' 40 1,
                ex_row ''a5'' ''task'' ''T3'' ''DELETE'' ''bob'' 50 1]\<rparr>"

definition ex_pulled :: "string \<Rightarrow> string \<Rightarrow> string \<Rightarrow> nat \<Rightarrow> sync_record" where
  "ex_pulled i t e ts =
    \<lparr>rec_id = i, rec_entityType = t, rec_entityId = e, rec_action = ''DELETE'', rec_data = JNull,
     rec_timestamp = ts, rec_userId = ''bob'', rec_version = 1\<rparr>"

definition ex_task_log :: "mem_db server" where
  "ex_task_log =
    \<lparr>entities = [],
     syncLog = [ex_row ''a1'' ''task'' ''T1'' ''DELETE'' ''bob'' 10 1,
                ex_row ''a2'' ''task'' ''T4'' ''DELETE'' ''bob'' 20 1,
                ex_row ''a3'' ''task'' ''T2'' ''DELETE'' ''bob'' 30 1,
                ex_row ''a4'' ''task'' ''T5'' ''DELETE'' ''bob'' 40 1,
                ex_row ''a5'' ''task'' ''T3'' ''DELETE'' ''bob'' 50 1]\<rparr>"

text \<open>
  A client of alice with one queued update of a task that the server does not have, the
  server of \<open>ex_server\<close> as the function that answers its push, and the reply to its pull.
\<close>

definition ex_item :: queue_item where
  "ex_item = \<lparr>qi_id = ''r9'', qi_entityType = ''task'', qi_entityId = ''T9'', qi_action = ''UPDATE'',
     qi_data = JObj [(''title'', JStr ''z'')], qi_timestamp = 20, qi_retryCount = 0,
     qi_lastRetry = None\<rparr>"

definition ex_client :: client where
  "ex_client =
    \<lparr>cl_isAuthenticated = True,
     cl_status = \<lparr>hs_isSyncing = False, hs_lastSyncAt = None, hs_pendingChanges = 1,
                  hs_syncProgress = 0, hs_conflicts = [], hs_syncError = None\<rparr>,
     cl_cache = (\<lambda>storeName. Map.empty),
     cl_syncQueue = [ex_item],
     cl_syncConflicts = None,
     cl_lastSyncAt = None,
     cl_syncToken = None,
     cl_userId = Some ''alice''\<rparr>"

definition ex_sync_server :: "push_request \<Rightarrow> string + push_response" where
  "ex_sync_server request = Inr (fst (pushData mem_platform ''alice'' request 1000 ex_server))"

definition ex_pull_reply :: "string + pull_response" where
  "ex_pull_reply =
     pullData mem_platform ''alice''
       \<lparr>pull_lastSyncTimestamp = None, pull_entityTypes = None, pull_limit = Some 100\<rparr>
       1000 ex_server"

definition ex_push_reply :: push_response where
  "ex_push_reply =
    \<lparr>push_accepted = [],
     push_rejected = [\<lparr>rej_id = ''r9'', rej_reason = ''Record to update not found'',
                        rej_conflictData = None\<rparr>],
     push_newSyncToken = createSyncToken ''alice'' 1000 ex_server,
     push_serverTimestamp = 1000\<rparr>"

text \<open>
  A monitor that went offline, and probes that find the server from attempt \<open>k\<close> on.
\<close>

definition ex_status :: network_status where
  "ex_status = \<lparr>isOnline = False, isSlowConnection = True, connectionType = ''4g'',
                 lastOnlineAt = Some 500, retryAttempts = 0\<rparr>"

definition ex_probes :: "nat \<Rightarrow> nat \<Rightarrow> probe_result" where
  "ex_probes k n = \<lparr>pr_isOnline = (k \<le> n), pr_isSlowConnection = False, pr_at = 1000 * n,
                    pr_connectionType = ''4g''\<rparr>"

text \<open>
  The states of two overlapping pushes of alice and carol on \<open>ex_server\<close>: after alice's
  entity write, after carol's, after alice's insert and after carol's.
\<close>

definition ex_race_1 :: "mem_db server" where
  "ex_race_1 =
    \<lparr>entities = [((''task'', ''T1''),
        JObj [(''id'', JStr ''T1''), (''title'', JStr ''b''), (''updatedAt'', JNum 1000)])],
     syncLog = [ex_row ''a1'' ''task'' ''T1'' ''UPDATE'' ''bob'' 10 5]\<rparr>"

definition ex_race_2 :: "mem_db server" where
  "ex_race_2 =
    \<lparr>entities = [((''task'', ''T1''),
        JObj [(''id'', JStr ''T1''), (''title'', JStr ''c''), (''updatedAt'', JNum 1001)])],
     syncLog = [ex_row ''a1'' ''task'' ''T1'' ''UPDATE'' ''bob'' 10 5]\<rparr>"

definition ex_race_3 :: "mem_db server" where
  "ex_race_3 =
    ex_race_2\<lparr>syncLog :=
      [ex_row ''a1'' ''task'' ''T1'' ''UPDATE'' ''bob'' 10 5,
       (ex_row ''r1'' ''task'' ''T1'' ''UPDATE'' ''alice'' 1000 6)
         \<lparr>log_data := JObj [(''title'', JStr ''b'')]\<rparr>]\<rparr>"

definition ex_race_4 :: "mem_db server" where
  "ex_race_4 =
    ex_race_2\<lparr>syncLog :=
      [ex_row ''a1'' ''task'' ''T1'' ''UPDATE'' ''bob'' 10 5,
       (ex_row ''r1'' ''task'' ''T1'' ''UPDATE'' ''alice'' 1000 6)
         \<lparr>log_data := JObj [(''title'', JStr ''b'')]\<rparr>,
       (ex_row ''r2'' ''task'' ''T1'' ''UPDATE'' ''carol'' 1001 6)
         \<lparr>log_data := JObj [(''title'', JStr ''c'')]\<rparr>]\<rparr>"

section \<open>Lemmas: queries on the audit log\<close>

lemma fold_best_mem:
  "fold (\<lambda>x best. if k best < k x then x else best) rs r \<in> set (r # rs)"
  by (induction rs arbitrary: r) auto

lemma Max_insert2:
  fixes x :: nat
  shows "finite S \<Longrightarrow> Max (insert x (insert y S)) = Max (insert (max x y) S)"
  by (cases "S = {}") (simp_all add: max.assoc)

lemma fold_best_key:
  fixes k :: "'a \<Rightarrow> nat"
  shows "k (fold (\<lambda>x best. if k best < k x then x else best) rs r) = Max (set (map k (r # rs)))"
proof (induction rs arbitrary: r)
  case Nil
  then show ?case by simp
next
  case (Cons a rs)
  have "set (map k (r # a # rs)) = insert (k r) (insert (k a) (k ` set rs))"
    by simp
  then have "Max (set (map k (r # a # rs))) = Max (insert (k r) (insert (k a) (k ` set rs)))"
    by (simp only:)
  also have "\<dots> = Max (insert (max (k r) (k a)) (k ` set rs))"
    by (rule Max_insert2) simp
  also have "\<dots> = Max (set (map k ((if k r < k a then a else r) # rs)))"
    by (simp add: max_def)
  also have "\<dots> = k (fold (\<lambda>x best. if k best < k x then x else best) rs
                        (if k r < k a then a else r))"
    by (rule Cons[symmetric])
  finally show ?case by simp
qed

lemma findFirst_desc_None: "findFirst_desc k Q rows = None \<longleftrightarrow> filter Q rows = []"
  by (simp add: findFirst_desc_def split: list.splits)

lemma findFirst_desc_Some:
  assumes "findFirst_desc k Q rows = Some r"
  shows "r \<in> set rows \<and> Q r \<and> k r = Max (set (map k (filter Q rows)))"
proof -
  from assms obtain a as where f: "filter Q rows = a # as"
    and r: "r = fold (\<lambda>x best. if k best < k x then x else best) as a"
    by (auto simp: findFirst_desc_def split: list.splits)
  have "r \<in> set (a # as)" unfolding r by (rule fold_best_mem)
  then have "r \<in> set (filter Q rows)" by (simp only: f)
  then have m: "r \<in> set rows \<and> Q r" by simp
  have "k r = Max (set (map k (a # as)))" unfolding r by (rule fold_best_key)
  then have "k r = Max (set (map k (filter Q rows)))" by (simp only: f)
  with m show ?thesis by simp
qed

lemma highest_Nil: "highest Q [] = 0"
  by (simp add: highest_def)

lemma highest_append:
  "highest Q (rows @ [r]) = (if Q r then max (log_version r) (highest Q rows) else highest Q rows)"
proof -
  let ?A = "set (0 # map log_version (filter Q rows))"
  have A: "finite ?A" "?A \<noteq> {}" by simp_all
  have "set (0 # map log_version (filter Q (rows @ [r]))) =
        (if Q r then insert (log_version r) ?A else ?A)" by auto
  then have "highest Q (rows @ [r]) = (if Q r then Max (insert (log_version r) ?A) else Max ?A)"
    unfolding highest_def by (simp only: if_distrib[of Max] split: if_splits)
  also have "Max (insert (log_version r) ?A) = max (log_version r) (Max ?A)"
    using A by (rule Max_insert)
  finally show ?thesis unfolding highest_def .
qed

lemma highest_ge: "r \<in> set rows \<Longrightarrow> Q r \<Longrightarrow> log_version r \<le> highest Q rows"
  unfolding highest_def by (rule Max_ge) auto

lemma version_or_0_highest:
  "version_or_0 (findFirst_desc log_version Q rows) = highest Q rows"
proof (cases "findFirst_desc log_version Q rows")
  case None
  then have "filter Q rows = []" by (simp only: findFirst_desc_None)
  with None show ?thesis by (simp add: version_or_0_def highest_def)
next
  case (Some r)
  from findFirst_desc_Some[OF Some] have m: "r \<in> set rows" "Q r" and
    v: "log_version r = Max (set (map log_version (filter Q rows)))" by auto
  from m have ne: "set (map log_version (filter Q rows)) \<noteq> {}" by auto
  have "Max (set (0 # map log_version (filter Q rows))) =
        Max (insert 0 (set (map log_version (filter Q rows))))" by simp
  also have "\<dots> = max 0 (Max (set (map log_version (filter Q rows))))"
    using ne by (intro Max_insert) simp_all
  finally have "highest Q rows = log_version r" unfolding highest_def using v by simp
  with Some show ?thesis by (simp add: version_or_0_def)
qed

lemma serverVersion_highest:
  "serverVersion r s = highestVersion (rec_entityType r) (rec_entityId r) (syncLog s)"
  by (simp add: serverVersion_def highestVersion_def version_or_0_highest)

lemma getEntityData_present:
  "has_model P (cfg_tableName c) \<Longrightarrow>
   getEntityData P (cfg_tableName c) i c db = Inr (serverDataOf P c i db)"
  by (simp add: getEntityData_def serverDataOf_def Let_def)

lemma detectConflict_registered:
  assumes "map_of entityConfigs (rec_entityType r) = Some c" and "has_model P (cfg_tableName c)"
  shows "detectConflict P r tok s =
    (if clientVersion r tok < highestVersion (rec_entityType r) (rec_entityId r) (syncLog s)
     then Inr (rej_conflictData (conflict_rejection P c r tok s)) else Inr None)"
  using assms
  by (simp add: detectConflict_def conflict_rejection_def serverVersion_highest getEntityData_present)

lemma applyChange_syncLog:
  "applyChange P r u now s = Inr s1 \<Longrightarrow> syncLog s1 = syncLog s"
  by (auto simp: applyChange_def Let_def split: option.splits if_splits sum.splits)

lemma spread_string:
  "spread (JStr ''ab'') = [(''0'', JStr ''a''), (''1'', JStr ''b'')]"
  by (simp add: index_keys_def decimal.simps digit_def upt_rec)

lemma spread_array:
  "spread (JArr [JNum 7, JNull]) = [(''0'', JNum 7), (''1'', JNull)]"
  by (simp add: index_keys_def decimal.simps digit_def upt_rec)

lemma nextVersion_highest:
  "nextVersion r s = highestVersion (rec_entityType r) (rec_entityId r) (syncLog s) + 1"
  by (simp add: nextVersion_def highestVersion_def version_or_0_highest Let_def)

lemma logSyncRecord_create_eq:
  "logSyncRecord_create P r u now v s =
    (if rec_data r = JUndefined then Inl checksum_error
     else if rec_id r \<in> set (map log_id (syncLog s)) then Inl unique_violation
     else Inr (s\<lparr>syncLog := syncLog s @ [logged_row P r u now v]\<rparr>))"
  by (simp add: logSyncRecord_create_def generateChecksum_def syncLog_create_def logged_row_def)

lemma logSyncRecord_eq:
  "logSyncRecord P r u now s =
    (if rec_data r = JUndefined then Inl checksum_error
     else if rec_id r \<in> set (map log_id (syncLog s)) then Inl unique_violation
     else Inr (s\<lparr>syncLog := syncLog s @ [appended_row P r u now (syncLog s)]\<rparr>))"
  by (simp add: logSyncRecord_def logSyncRecord_create_eq nextVersion_highest appended_row_def)

lemma pushRecord_registered:
  assumes "map_of entityConfigs (rec_entityType r) = Some c" and "has_model P (cfg_tableName c)"
  shows "pushRecord P u tok now r (s, acc, rej) =
   (if clientVersion r tok < highestVersion (rec_entityType r) (rec_entityId r) (syncLog s)
    then (s, acc, rej @ [conflict_rejection P c r tok s])
    else case applyChange P r u now s of
           Inl msg \<Rightarrow> (s, acc, rej @ [rejected_with r msg])
         | Inr sa \<Rightarrow>
             if rec_data r = JUndefined
             then (sa, acc, rej @ [rejected_with r checksum_error])
             else if rec_id r \<in> set (map log_id (syncLog s))
             then (sa, acc, rej @ [rejected_with r unique_violation])
             else (sa\<lparr>syncLog := syncLog s @ [appended_row P r u now (syncLog s)]\<rparr>,
                   acc @ [rec_id r], rej))"
  using assms
  by (auto simp: pushRecord.simps detectConflict_registered logSyncRecord_eq conflict_rejection_def
      applyChange_syncLog split: sum.splits)

lemma pushRecord_unregistered:
  assumes "map_of entityConfigs (rec_entityType r) = None"
  shows "pushRecord P u tok now r (s, acc, rej) =
   (s, acc, rej @ [rejected_with r (''Entity type '' @ rec_entityType r @ '' not configured'')])"
  using assms by (simp add: pushRecord.simps detectConflict_def applyChange_def)

lemma pushRecord_no_model:
  assumes "map_of entityConfigs (rec_entityType r) = Some c" and "\<not> has_model P (cfg_tableName c)"
  shows "pushRecord P u tok now r (s, acc, rej) =
   (s, acc, rej @ [rejected_with r (''Model '' @ cfg_tableName c @ '' not found'')])"
  using assms
  by (simp add: pushRecord.simps detectConflict_def applyChange_def getEntityData_def)

lemma pushRecord_outcome:
  assumes "pushRecord P u tok now r (s, acc, rej) = (s', acc', rej')"
  shows "(acc' = acc \<and> syncLog s' = syncLog s \<and> (\<exists>x. rej' = rej @ [x] \<and> rej_id x = rec_id r))
       \<or> (acc' = acc @ [rec_id r] \<and> rej' = rej \<and> rec_id r \<notin> set (map log_id (syncLog s))
          \<and> syncLog s' = syncLog s @ [appended_row P r u now (syncLog s)])"
  using assms
  by (auto simp: pushRecord.simps logSyncRecord_eq rejected_with_def applyChange_syncLog
      split: sum.splits option.splits if_splits)

lemma pushLoop_Nil: "pushLoop P u tok now [] acc = acc"
  by (simp add: pushLoop_def)

lemma pushLoop_Cons:
  "pushLoop P u tok now (r # rs) acc = pushLoop P u tok now rs (pushRecord P u tok now r acc)"
  by (simp add: pushLoop_def)

lemma pushLoop_append:
  "pushLoop P u tok now (xs @ ys) acc = pushLoop P u tok now ys (pushLoop P u tok now xs acc)"
  by (simp add: pushLoop_def)

lemma pushLoop_grows:
  "pushLoop P u tok now rs (s, acc, rej) = (s', acc', rej') \<Longrightarrow>
   \<exists>a b. acc' = acc @ a \<and> rej' = rej @ b"
proof (induction rs arbitrary: s acc rej)
  case Nil
  then show ?case by (simp add: pushLoop_Nil)
next
  case (Cons r rs)
  obtain s1 acc1 rej1 where st: "pushRecord P u tok now r (s, acc, rej) = (s1, acc1, rej1)"
    by (cases "pushRecord P u tok now r (s, acc, rej)") auto
  from pushRecord_outcome[OF st] obtain a1 b1 where 1: "acc1 = acc @ a1" "rej1 = rej @ b1"
    by auto
  from Cons.prems st have "pushLoop P u tok now rs (s1, acc1, rej1) = (s', acc', rej')"
    by (simp add: pushLoop_Cons)
  from Cons.IH[OF this] obtain a b where "acc' = acc1 @ a" "rej' = rej1 @ b" by auto
  with 1 show ?case by simp
qed

lemma appended_row_sel [simp]:
  "log_id (appended_row P r u now rows) = rec_id r"
  "log_entityType (appended_row P r u now rows) = rec_entityType r"
  "log_entityId (appended_row P r u now rows) = rec_entityId r"
  "log_data (appended_row P r u now rows) = rec_data r"
  "log_userId (appended_row P r u now rows) = u"
  "log_version (appended_row P r u now rows) =
     highestVersion (rec_entityType r) (rec_entityId r) rows + 1"
  by (simp_all add: appended_row_def logged_row_def)

lemma pushLoop_invariant:
  assumes "pushLoop P u tok now rs (s, acc, rej) = (s', acc', rej')"
  shows "\<exists>new b. syncLog s' = syncLog s @ new \<and> acc' = acc @ map log_id new \<and> rej' = rej @ b
      \<and> length new + length b = length rs
      \<and> (\<forall>i. count_list (map log_id new @ map rej_id b) i = count_list (map rec_id rs) i)
      \<and> versions_follow (syncLog s) new"
  using assms
proof (induction rs arbitrary: s acc rej)
  case Nil
  then show ?case by (simp add: pushLoop_Nil)
next
  case (Cons r rs)
  obtain s1 acc1 rej1 where st: "pushRecord P u tok now r (s, acc, rej) = (s1, acc1, rej1)"
    by (cases "pushRecord P u tok now r (s, acc, rej)") auto
  from Cons.prems st have "pushLoop P u tok now rs (s1, acc1, rej1) = (s', acc', rej')"
    by (simp add: pushLoop_Cons)
  from Cons.IH[OF this] obtain new b where ih:
    "syncLog s' = syncLog s1 @ new" "acc' = acc1 @ map log_id new" "rej' = rej1 @ b"
    "length new + length b = length rs"
    "\<forall>i. count_list (map log_id new @ map rej_id b) i = count_list (map rec_id rs) i"
    "versions_follow (syncLog s1) new"
    by blast
  from pushRecord_outcome[OF st] show ?case
  proof (elim disjE conjE exE)
    fix x
    assume a: "acc1 = acc" "syncLog s1 = syncLog s" "rej1 = rej @ [x]" "rej_id x = rec_id r"
    show ?thesis
      apply (rule exI[of _ new], rule exI[of _ "x # b"])
      using ih a by simp
  next
    assume a: "acc1 = acc @ [rec_id r]" "rej1 = rej" "rec_id r \<notin> set (map log_id (syncLog s))"
      "syncLog s1 = syncLog s @ [appended_row P r u now (syncLog s)]"
    show ?thesis
      apply (rule exI[of _ "appended_row P r u now (syncLog s) # new"], rule exI[of _ b])
      using ih a by simp
  qed
qed

lemma versions_follow_ids:
  "versions_follow rows new \<Longrightarrow>
   distinct (map log_id new) \<and> set (map log_id new) \<inter> set (map log_id rows) = {}"
proof (induction new arbitrary: rows)
  case Nil
  then show ?case by simp
next
  case (Cons x xs)
  from Cons.prems have x: "log_id x \<notin> set (map log_id rows)"
    and f: "versions_follow (rows @ [x]) xs" by simp_all
  from Cons.IH[OF f] have d: "distinct (map log_id xs)"
    and i: "set (map log_id xs) \<inter> set (map log_id (rows @ [x])) = {}" by simp_all
  from i have "log_id x \<notin> set (map log_id xs)"
    and "set (map log_id xs) \<inter> set (map log_id rows) = {}" by auto
  with x d show ?case by auto
qed

lemma highestVersion_ge:
  "x \<in> set rows \<Longrightarrow> log_version x \<le> highestVersion (log_entityType x) (log_entityId x) rows"
  unfolding highestVersion_def by (rule highest_ge) simp_all

lemma versions_follow_distinct:
  "versions_follow rows new \<Longrightarrow> distinct (map version_key rows) \<Longrightarrow>
   distinct (map version_key (rows @ new))"
proof (induction new arbitrary: rows)
  case Nil
  then show ?case by simp
next
  case (Cons x xs)
  have fresh: "version_key x \<notin> set (map version_key rows)"
  proof
    assume "version_key x \<in> set (map version_key rows)"
    then obtain y where y: "y \<in> set rows" "version_key y = version_key x" by auto
    then have "log_version x \<le> highestVersion (log_entityType x) (log_entityId x) rows"
      using highestVersion_ge[OF y(1)] by (simp add: version_key_def)
    with Cons.prems(1) show False by simp
  qed
  with Cons.prems have "distinct (map version_key (rows @ [x]))" by simp
  with Cons.IH[of "rows @ [x]"] Cons.prems(1) show ?case by simp
qed

lemma highestVersion_append:
  "highestVersion t e (rows @ [x]) =
    (if log_entityType x = t \<and> log_entityId x = e then max (log_version x) (highestVersion t e rows)
     else highestVersion t e rows)"
  by (simp add: highestVersion_def highest_append)

lemma highestVersion_none:
  "filter (\<lambda>r. log_entityType r = t \<and> log_entityId r = e) rows = [] \<Longrightarrow> highestVersion t e rows = 0"
  by (simp add: highestVersion_def highest_def)

lemma pushRecord_frame:
  "pushRecord P u tok now r (s, acc, rej) =
    (case pushRecord P u tok now r (s, [], []) of (s', a, b) \<Rightarrow> (s', acc @ a, rej @ b))"
  by (simp add: pushRecord.simps split: sum.splits option.splits)

lemma pushLoop_frame:
  "pushLoop P u tok now rs (s, acc, rej) =
    (case pushLoop P u tok now rs (s, [], []) of (s', a, b) \<Rightarrow> (s', acc @ a, rej @ b))"
proof (induction rs arbitrary: s acc rej)
  case Nil
  then show ?case by (simp add: pushLoop_Nil)
next
  case (Cons r rs)
  obtain s1 a1 b1 where st: "pushRecord P u tok now r (s, [], []) = (s1, a1, b1)"
    by (cases "pushRecord P u tok now r (s, [], [])") auto
  then have st': "pushRecord P u tok now r (s, acc, rej) = (s1, acc @ a1, rej @ b1)"
    by (subst pushRecord_frame) simp
  obtain s2 a2 b2 where l: "pushLoop P u tok now rs (s1, [], []) = (s2, a2, b2)"
    by (cases "pushLoop P u tok now rs (s1, [], [])") auto
  have "pushLoop P u tok now rs (s1, a1, b1) = (s2, a1 @ a2, b1 @ b2)"
    by (subst Cons.IH) (simp add: l)
  moreover have "pushLoop P u tok now rs (s1, acc @ a1, rej @ b1) = (s2, (acc @ a1) @ a2, (rej @ b1) @ b2)"
    by (subst Cons.IH) (simp add: l)
  ultimately show ?case by (simp add: pushLoop_Cons st st')
qed

lemma pushLoop_mset:
  assumes "pushLoop P u tok now rs (s, acc, rej) = (s', acc', rej')"
  shows "mset (acc' @ map rej_id rej') = mset (acc @ map rej_id rej) + mset (map rec_id rs)"
  using assms
proof (induction rs arbitrary: s acc rej)
  case Nil
  then show ?case by (simp add: pushLoop_Nil)
next
  case (Cons r rs)
  obtain s1 acc1 rej1 where st: "pushRecord P u tok now r (s, acc, rej) = (s1, acc1, rej1)"
    by (cases "pushRecord P u tok now r (s, acc, rej)") auto
  from Cons.prems st have "pushLoop P u tok now rs (s1, acc1, rej1) = (s', acc', rej')"
    by (simp add: pushLoop_Cons)
  from Cons.IH[OF this]
  have ih: "mset (acc' @ map rej_id rej') = mset (acc1 @ map rej_id rej1) + mset (map rec_id rs)" .
  from pushRecord_outcome[OF st]
  have "mset (acc1 @ map rej_id rej1) = mset (acc @ map rej_id rej) + {#rec_id r#}"
    by auto
  with ih show ?case by simp
qed

lemma pushData_loop:
  "pushData P userId req now s = (resp, s') \<Longrightarrow>
   pushLoop P userId (push_syncToken req) now (push_records req) (s, [], [])
     = (s', push_accepted resp, push_rejected resp)"
  by (auto simp: pushData_def split: prod.splits)

lemma pushLoop_snoc:
  "pushLoop P u tok now (xs @ [r]) acc = pushRecord P u tok now r (pushLoop P u tok now xs acc)"
  by (simp add: pushLoop_append pushLoop_Cons pushLoop_Nil)

lemma pushLoop_split:
  "pushLoop P u tok now (xs @ r # ys) acc
    = pushLoop P u tok now ys (pushRecord P u tok now r (pushLoop P u tok now xs acc))"
  by (simp add: pushLoop_append pushLoop_Cons)

lemma pushLoop_same_state:
  assumes "pushLoop P u tok now rs (s, acc, rej) = (s', acc', rej')"
  shows "fst (pushLoop P u tok now rs (s, acc, rej0)) = s'
       \<and> fst (snd (pushLoop P u tok now rs (s, acc, rej0))) = acc'"
proof -
  obtain t a b where l: "pushLoop P u tok now rs (s, [], []) = (t, a, b)"
    by (cases "pushLoop P u tok now rs (s, [], [])") auto
  have "pushLoop P u tok now rs (s, acc, rej) = (t, acc @ a, rej @ b)"
    by (subst pushLoop_frame) (simp add: l)
  moreover have "pushLoop P u tok now rs (s, acc, rej0) = (t, acc @ a, rej0 @ b)"
    by (subst pushLoop_frame) (simp add: l)
  ultimately show ?thesis using assms by simp
qed

lemma createSyncToken_versions:
  "tok_entityVersions (createSyncToken userId now s) =
    (\<lambda>t. if t \<in> set (map fst entityConfigs)
          then Some (highestOwnVersion t userId (syncLog s)) else None)"
  by (rule ext)
     (simp add: createSyncToken_def entityConfigs_def version_or_0_highest highestOwnVersion_def)

lemma findUnique_id_None: "i \<notin> set (map log_id rows) \<Longrightarrow> findUnique_id i rows = None"
  by (auto simp: findUnique_id_def find_None_iff)

lemma resolveConflict_unknown_id:
  "res_recordId resolution \<notin> set (map log_id (syncLog s)) \<Longrightarrow>
   resolveConflict P userId resolution now uuid s = (Inl ''Sync record not found'', s)"
  by (simp add: resolveConflict_def findUnique_id_None)

lemma resolve_after_rejection_fails:
  assumes new: "rec_id r \<notin> set (map log_id (syncLog s))"
    and push: "pushData P userId \<lparr>push_records = [r], push_syncToken = tok\<rparr> now s = (resp, s')"
    and rej: "push_accepted resp = []"
  shows "resolveConflict P userId
           \<lparr>res_recordId = rec_id r, res_strategy = strategy, res_mergedData = m\<rparr> now' uuid s'
         = (Inl ''Sync record not found'', s')"
proof -
  from pushLoop_invariant[OF pushData_loop[OF push]] rej have "syncLog s' = syncLog s" by auto
  with new show ?thesis by (simp add: resolveConflict_unknown_id)
qed

lemma resolveConflict_client_wins_logged:
  assumes row: "findUnique_id i (syncLog s) = Some row"
    and wr: "applyChange P (row_as_record row) userId now s = Inr sa"
    and fresh: "uuid \<notin> set (map log_id (syncLog s))"
    and data: "log_data row \<noteq> JUndefined"
  shows "resolveConflict P userId
           \<lparr>res_recordId = i, res_strategy = ''CLIENT_WINS'', res_mergedData = m\<rparr> now uuid s
         = (Inr (), sa\<lparr>syncLog := syncLog s @
              [appended_row P ((row_as_record row)\<lparr>rec_id := uuid\<rparr>) userId now (syncLog s)]\<rparr>)"
proof -
  have d: "(row_as_record row)\<lparr>rec_data := log_data row\<rparr> = row_as_record row"
    by (simp add: row_as_record_def)
  have e: "(row_as_record row)\<lparr>rec_data := log_data row, rec_id := uuid\<rparr>
           = (row_as_record row)\<lparr>rec_id := uuid\<rparr>"
    by (simp add: row_as_record_def)
  from applyChange_syncLog[OF wr] have l: "syncLog sa = syncLog s" .
  have u: "rec_data ((row_as_record row)\<lparr>rec_id := uuid\<rparr>) \<noteq> JUndefined"
    using data by (simp add: row_as_record_def)
  show ?thesis using row wr fresh u
    by (simp add: resolveConflict_def d e logSyncRecord_eq l)
qed

lemma resolveConflict_log:
  assumes "resolveConflict P userId resolution now uuid s = (out, s')"
  shows "syncLog s' = syncLog s
       \<or> (\<exists>record. syncLog s' = syncLog s @ [appended_row P record userId now (syncLog s)]
             \<and> rec_id record \<notin> set (map log_id (syncLog s)))"
proof (cases "syncLog s' = syncLog s")
  case True
  then show ?thesis by simp
next
  case False
  from assms False obtain syncRecord finalData s1 where
      w: "applyChange P ((row_as_record syncRecord)\<lparr>rec_data := finalData\<rparr>) userId now s = Inr s1"
      and l: "logSyncRecord P ((row_as_record syncRecord)\<lparr>rec_data := finalData, rec_id := uuid\<rparr>)
                userId now s1 = Inr s'"
    by (auto simp: resolveConflict_def applyChange_syncLog
        split: option.splits if_splits sum.splits)
  let ?rc = "(row_as_record syncRecord)\<lparr>rec_data := finalData, rec_id := uuid\<rparr>"
  from applyChange_syncLog[OF w] have same: "syncLog s1 = syncLog s" .
  from l same have "syncLog s' = syncLog s @ [appended_row P ?rc userId now (syncLog s)]"
    and "rec_id ?rc \<notin> set (map log_id (syncLog s))"
    by (auto simp: logSyncRecord_eq split: if_splits)
  then show ?thesis by blast
qed

lemma pullRows_present:
  "has_model P (cfg_tableName c) \<Longrightarrow>
   pullRows P c db rows acc = Inr (acc @ map (pulled_record P c db) rows)"
  by (induction rows arbitrary: acc) (simp_all add: getEntityData_present pulled_record_def)

lemma pull_single_type:
  assumes cfg: "map_of entityConfigs t = Some c" and model: "has_model P (cfg_tableName c)"
  shows "pullData P userId
           \<lparr>pull_lastSyncTimestamp = Some since, pull_entityTypes = Some [t], pull_limit = Some limit\<rparr>
           now s
         = Inr \<lparr>pull_records = map (pulled_record P c (entities s))
                   (take limit (sort_key log_timestamp (pending t userId since (syncLog s)))),
                pull_syncToken = createSyncToken userId now s,
                pull_hasMore = (limit \<le> length (pending t userId since (syncLog s))),
                pull_serverTimestamp = now\<rparr>"
  using cfg
  by (auto simp: pullData_def pullRows_present[OF model] findMany_timestamp_asc_def pending_def
      min_def)

lemmas ex_defs = ex_row_def ex_server_def ex_record_def ex_token_def ex_task_config_def
  ex_empty_def ex_message_def ex_missing_def ex_batch_def

lemmas ex_push_defs = ex_first_push_def ex_second_push_def ex_resubmit_push_def ex_second_def

lemmas ex_race_defs = ex_race_1_def ex_race_2_def ex_race_3_def ex_race_4_def

lemmas pull_defs = pullData_def findMany_timestamp_asc_def ex_pull_all_def ex_pull_server_def
  ex_pulled_def

lemmas run_defs = pushRecord.simps pushData_def pushLoop_def detectConflict_def applyChange_def
  logSyncRecord_def logSyncRecord_create_def nextVersion_def generateChecksum_def syncLog_create_def getEntityData_def serverVersion_def clientVersion_def
  version_or_0_def findFirst_desc_def entityConfigs_def mem_platform_def mem_update_def
  mem_create_def mem_delete_def rejected_with_def unique_violation_def createSyncToken_def Let_def

section \<open>Lemmas: client\<close>

lemma set_status_queue [simp]:
  "cl_syncQueue (set_status f c) = cl_syncQueue c"
  "cl_syncToken (set_status f c) = cl_syncToken c"
  "cl_userId (set_status f c) = cl_userId c"
  by (simp_all add: set_status_def)

lemma applyServerChange_queue:
  "applyServerChange record now c = Inr c' \<Longrightarrow>
   cl_syncQueue c' = cl_syncQueue c \<and> cl_syncToken c' = cl_syncToken c \<and> cl_userId c' = cl_userId c"
  by (auto simp: applyServerChange_def applyEntityChange_def offlineDB_update_def
      offlineDB_delete_def split: if_splits option.splits json.splits)

lemma applyPulled_queue:
  "applyPulled records now c = (res, c') \<Longrightarrow>
   cl_syncQueue c' = cl_syncQueue c \<and> cl_syncToken c' = cl_syncToken c \<and> cl_userId c' = cl_userId c"
proof (induction records arbitrary: c)
  case Nil
  then show ?case by simp
next
  case (Cons r rs)
  show ?case
  proof (cases "applyServerChange r now c")
    case (Inl msg)
    with Cons.prems show ?thesis by simp
  next
    case (Inr c1)
    with Cons.prems have "applyPulled rs now c1 = (res, c')" by simp
    from Cons.IH[OF this] applyServerChange_queue[OF Inr] show ?thesis by simp
  qed
qed

lemma pullChanges_queue:
  "pullChanges reply now c = (res, c') \<Longrightarrow>
   cl_syncQueue c' = cl_syncQueue c \<and> cl_syncToken c' = cl_syncToken c \<and> cl_userId c' = cl_userId c"
  by (auto simp: pullChanges_def split: sum.splits prod.splits dest: applyPulled_queue)

lemma fold_removeSyncQueueItem:
  "cl_syncQueue (fold removeSyncQueueItem ids c) = filter (\<lambda>q. qi_id q \<notin> set ids) (cl_syncQueue c)"
  by (induction ids arbitrary: c) (auto simp: removeSyncQueueItem_def intro: filter_cong)

lemma finalize_queue: "cl_syncQueue (snd (finalize now c)) = cl_syncQueue c"
  by (simp add: finalize_def Let_def)

lemma sync_failed_queue: "cl_syncQueue (snd (sync_failed msg c)) = cl_syncQueue c"
  by (simp add: sync_failed_def)

lemma pushRequest_cong:
  "cl_syncToken c' = cl_syncToken c \<Longrightarrow> cl_userId c' = cl_userId c \<Longrightarrow>
   pushRequest q c' = pushRequest q c"
  by (simp add: pushRequest_def getSyncToken_def split: option.splits)

lemma triggerSync_queue:
  assumes run: "triggerSync pullReply server now c = (ok, c')"
    and reply: "server (pushRequest (cl_syncQueue c) c) = Inr resp"
  shows "cl_syncQueue c' = cl_syncQueue c
       \<or> cl_syncQueue c' = filter (\<lambda>q. qi_id q \<notin> set (push_accepted resp)) (cl_syncQueue c)"
proof (cases "\<not> cl_isAuthenticated c \<or> hs_isSyncing (cl_status c)")
  case True
  with run show ?thesis by (simp add: triggerSync_def)
next
  case False
  let ?c0 = "set_status (\<lambda>prev. prev\<lparr>hs_isSyncing := True, hs_syncProgress := 10,
                                          hs_syncError := None\<rparr>) c"
  obtain pr c1 where p: "pullChanges pullReply now ?c0 = (pr, c1)"
    by (cases "pullChanges pullReply now ?c0") auto
  from pullChanges_queue[OF p]
  have q1: "cl_syncQueue c1 = cl_syncQueue c" "cl_syncToken c1 = cl_syncToken c"
    "cl_userId c1 = cl_userId c" by simp_all
  show ?thesis
  proof (cases pr)
    case (Inl msg)
    with run False p have "c' = snd (sync_failed msg c1)" by (simp add: triggerSync_def)
    with q1 show ?thesis by (simp add: sync_failed_queue)
  next
    case (Inr pullResult)
    let ?c2 = "set_status (\<lambda>prev. prev\<lparr>hs_syncProgress := 30\<rparr>) c1"
    let ?c2' = "set_status (\<lambda>prev. prev\<lparr>hs_syncProgress := 40\<rparr>) ?c2"
    show ?thesis
    proof (cases "0 < length (cl_syncQueue c)")
      case False
      with run \<open>\<not> (\<not> cl_isAuthenticated c \<or> hs_isSyncing (cl_status c))\<close> p Inr q1
      have "c' = snd (finalize now ?c2)" by (simp add: triggerSync_def Let_def)
      with q1 show ?thesis by (simp add: finalize_queue)
    next
      case True
      have req: "pushRequest (cl_syncQueue c) ?c2' = pushRequest (cl_syncQueue c) c"
        by (rule pushRequest_cong) (simp_all add: q1)
      with reply have push: "pushChanges server (cl_syncQueue c) ?c2'
            = (Inr resp, ?c2'\<lparr>cl_syncToken := Some (push_newSyncToken resp)\<rparr>)"
        by (simp add: pushChanges_def)
      note facts = run \<open>\<not> (\<not> cl_isAuthenticated c \<or> hs_isSyncing (cl_status c))\<close> p Inr True push
      have "\<exists>c5. c' = snd (finalize now (fold removeSyncQueueItem (push_accepted resp) c5))
                 \<and> cl_syncQueue c5 = cl_syncQueue c"
      proof (cases "push_rejected resp = []")
        case True
        let ?c5 = "set_status (\<lambda>prev. prev\<lparr>hs_syncProgress := 70\<rparr>)
                     (?c2'\<lparr>cl_syncToken := Some (push_newSyncToken resp)\<rparr>)"
        from facts q1(1) True
        have "finalize now (fold removeSyncQueueItem (push_accepted resp) ?c5) = (ok, c')"
          by (simp add: triggerSync_def Let_def)
        then have "c' = snd (finalize now (fold removeSyncQueueItem (push_accepted resp) ?c5))"
          by simp
        moreover have "cl_syncQueue ?c5 = cl_syncQueue c" by (simp add: q1)
        ultimately show ?thesis by blast
      next
        case False
        let ?conflicts = "map (conflictOf (cl_syncQueue ?c2) now)
                            (filter (\<lambda>item. rej_reason item = ''CONFLICT'') (push_rejected resp))"
        let ?c5 = "set_status (\<lambda>prev. prev\<lparr>hs_conflicts := ?conflicts\<rparr>)
                     ((set_status (\<lambda>prev. prev\<lparr>hs_syncProgress := 70\<rparr>)
                        (?c2'\<lparr>cl_syncToken := Some (push_newSyncToken resp)\<rparr>))
                      \<lparr>cl_syncConflicts := Some ?conflicts\<rparr>)"
        from facts q1(1) False
        have "finalize now (fold removeSyncQueueItem (push_accepted resp) ?c5) = (ok, c')"
          by (simp add: triggerSync_def Let_def)
        then have "c' = snd (finalize now (fold removeSyncQueueItem (push_accepted resp) ?c5))"
          by simp
        moreover have "cl_syncQueue ?c5 = cl_syncQueue c" by (simp add: q1)
        ultimately show ?thesis by blast
      qed
      then show ?thesis by (auto simp: finalize_queue fold_removeSyncQueueItem)
    qed
  qed
qed

lemma retryConnection_closed_acc:
  "retryConnection maxRetries probes attempt acc =
    (case find (\<lambda>n. pr_isOnline (probes n)) [attempt..<maxRetries] of
       None \<Rightarrow> ((fst acc)\<lparr>retryAttempts := max attempt maxRetries\<rparr>,
                 snd acc @ map backoff_delay [attempt..<maxRetries])
     | Some n \<Rightarrow> (came_online (probes n) (fst acc), snd acc @ map backoff_delay [attempt..<Suc n]))"
proof (induction maxRetries probes attempt acc rule: retryConnection.induct)
  case (1 maxRetries probes attempt status delays)
  show ?case
  proof (cases "maxRetries \<le> attempt")
    case True
    then show ?thesis
      by (subst retryConnection.simps) (simp add: max_def)
  next
    case False
    then have upt: "[attempt..<maxRetries] = attempt # [Suc attempt..<maxRetries]"
      by (simp add: upt_conv_Cons)
    show ?thesis
    proof (cases "pr_isOnline (probes attempt)")
      case True
      with False show ?thesis
        by (subst retryConnection.simps) (simp add: upt came_online_def backoff_delay_def Let_def)
    next
      case off: False
      have step: "retryConnection maxRetries probes attempt (status, delays)
            = retryConnection maxRetries probes (attempt + 1)
                (status\<lparr>retryAttempts := attempt + 1\<rparr>, delays @ [backoff_delay attempt])"
        using False off by (subst retryConnection.simps) (simp add: Let_def backoff_delay_def)
      have ih: "retryConnection maxRetries probes (attempt + 1)
                (status\<lparr>retryAttempts := attempt + 1\<rparr>, delays @ [min (1000 * 2 ^ attempt) 30000])
          = (case find (\<lambda>n. pr_isOnline (probes n)) [attempt + 1..<maxRetries] of
               None \<Rightarrow> (status\<lparr>retryAttempts := attempt + 1\<rparr>\<lparr>retryAttempts := max (attempt + 1) maxRetries\<rparr>,
                 (delays @ [backoff_delay attempt]) @ map backoff_delay [attempt + 1..<maxRetries])
             | Some n \<Rightarrow> (came_online (probes n) (status\<lparr>retryAttempts := attempt + 1\<rparr>),
                 (delays @ [backoff_delay attempt]) @ map backoff_delay [attempt + 1..<Suc n]))"
        using "1.IH"[OF False refl refl off] by (simp add: backoff_delay_def split: option.splits)
      have mx: "max (Suc attempt) maxRetries = max attempt maxRetries" using False by simp
      have f: "find (\<lambda>n. pr_isOnline (probes n)) [attempt..<maxRetries]
               = find (\<lambda>n. pr_isOnline (probes n)) [Suc attempt..<maxRetries]"
        using off by (simp add: upt)
      show ?thesis
      proof (cases "find (\<lambda>n. pr_isOnline (probes n)) [Suc attempt..<maxRetries]")
        case None
        with ih show ?thesis
          unfolding step f by (simp add: upt mx backoff_delay_def)
      next
        case (Some n)
        then have "n \<in> set [Suc attempt..<maxRetries]"
          by (metis find_Some_iff nth_mem)
        then have "attempt < Suc n" by simp
        then have later: "[attempt..<Suc n] = attempt # [Suc attempt..<Suc n]"
          by (rule upt_conv_Cons)
        from ih Some show ?thesis
          unfolding step f by (simp add: later came_online_def backoff_delay_def del: upt_Suc)
      qed
    qed
  qed
qed

lemma retryConnection_closed:
  "retryConnection maxRetries probes attempt (status, delays) =
    (case find (\<lambda>n. pr_isOnline (probes n)) [attempt..<maxRetries] of
       None \<Rightarrow> (status\<lparr>retryAttempts := max attempt maxRetries\<rparr>,
                 delays @ map backoff_delay [attempt..<maxRetries])
     | Some n \<Rightarrow> (came_online (probes n) status, delays @ map backoff_delay [attempt..<Suc n]))"
  by (subst retryConnection_closed_acc) (simp split: option.splits)

lemmas client_defs = triggerSync_def pullChanges_def pushChanges_def pushRequest_def
  getSyncToken_def applyServerChange_def applyEntityChange_def offlineDB_update_def
  offlineDB_delete_def removeSyncQueueItem_def conflictOf_def set_status_def sync_failed_def
  finalize_def ex_item_def ex_client_def ex_sync_server_def ex_pull_reply_def ex_push_reply_def

section \<open>Properties of the server\<close>

text \<open>
  C1 (amended). For every pushed record, let the server version be the highest audit-log
  version of its entity (0 if none) at the moment the record is processed, and the client
  version the token's entry for the entity type (0 if absent). For a registered entity type
  whose table the store has: if the server version is greater, the record is rejected with
  reason CONFLICT and the conflict data (server version, client version, server data, client
  data), and the state is as before: no entity change and no audit-log entry. Otherwise
  conflict detection passes and the entity is written: when the write throws, the record is
  rejected with the message and the state is as before; when the write succeeds, the record
  has a \<^verbatim>\<open>data\<close> field and its id is not in the audit log, one entry is appended and the id
  is accepted; when the write succeeds and the append fails (no \<^verbatim>\<open>data\<close> field: the checksum
  throws; id in the log: the primary key), the record is rejected with that message and
  nothing is appended. A record of an entity type that is not registered is never reported as a
  conflict: it is rejected with the message that the type is not configured, and the state
  is as before; so is a record of a registered type whose table the store lacks, with the
  message that the model is not found. What the step adds to the two result lists stays in
  the response.
\<close>

theorem push_conflict_rule:
  assumes before: "pushLoop P userId tok now before (s, [], []) = (s1, acc1, rej1)"
    and step: "pushLoop P userId tok now (before @ [r]) (s, [], []) = (s2, acc2, rej2)"
    and push: "pushData P userId \<lparr>push_records = before @ r # after, push_syncToken = tok\<rparr> now s
               = (resp, s')"
  shows "(\<exists>a b. push_accepted resp = acc2 @ a \<and> push_rejected resp = rej2 @ b)
    \<and> (\<forall>config.
          map_of entityConfigs (rec_entityType r) = Some config \<and> has_model P (cfg_tableName config) \<longrightarrow>
          (clientVersion r tok < highestVersion (rec_entityType r) (rec_entityId r) (syncLog s1) \<longrightarrow>
             s2 = s1 \<and> acc2 = acc1 \<and> rej2 = rej1 @ [conflict_rejection P config r tok s1])
        \<and> (highestVersion (rec_entityType r) (rec_entityId r) (syncLog s1) \<le> clientVersion r tok \<longrightarrow>
             (\<forall>msg. applyChange P r userId now s1 = Inl msg \<longrightarrow>
                s2 = s1 \<and> acc2 = acc1 \<and> rej2 = rej1 @ [rejected_with r msg])
           \<and> (\<forall>sa. applyChange P r userId now s1 = Inr sa \<and> rec_data r \<noteq> JUndefined
                     \<and> rec_id r \<notin> set (map log_id (syncLog s1)) \<longrightarrow>
                s2 = sa\<lparr>syncLog := syncLog s1 @ [appended_row P r userId now (syncLog s1)]\<rparr>
                \<and> acc2 = acc1 @ [rec_id r] \<and> rej2 = rej1)
           \<and> (\<forall>sa. applyChange P r userId now s1 = Inr sa
                     \<and> (rec_data r = JUndefined \<or> rec_id r \<in> set (map log_id (syncLog s1))) \<longrightarrow>
                s2 = sa \<and> acc2 = acc1
                \<and> rej2 = rej1 @ [rejected_with r (if rec_data r = JUndefined then checksum_error
                                                   else unique_violation)])))
    \<and> (map_of entityConfigs (rec_entityType r) = None \<longrightarrow>
          s2 = s1 \<and> acc2 = acc1
          \<and> rej2 = rej1 @ [rejected_with r (''Entity type '' @ rec_entityType r @ '' not configured'')])
    \<and> (\<forall>config.
          map_of entityConfigs (rec_entityType r) = Some config \<and> \<not> has_model P (cfg_tableName config) \<longrightarrow>
          s2 = s1 \<and> acc2 = acc1
          \<and> rej2 = rej1 @ [rejected_with r (''Model '' @ cfg_tableName config @ '' not found'')])"
proof -
  from before step have one: "pushRecord P userId tok now r (s1, acc1, rej1) = (s2, acc2, rej2)"
    by (simp add: pushLoop_append pushLoop_Cons pushLoop_Nil)
  have "pushLoop P userId tok now (before @ r # after) (s, [], [])
        = pushLoop P userId tok now after (s2, acc2, rej2)"
    using step by (simp add: pushLoop_append pushLoop_Cons pushLoop_Nil)
  with push have "pushLoop P userId tok now after (s2, acc2, rej2)
        = (s', push_accepted resp, push_rejected resp)"
    by (auto simp: pushData_def split: prod.splits)
  from pushLoop_grows[OF this]
  have g: "\<exists>a b. push_accepted resp = acc2 @ a \<and> push_rejected resp = rej2 @ b" .
  have reg: "(clientVersion r tok < highestVersion (rec_entityType r) (rec_entityId r) (syncLog s1) \<longrightarrow>
             s2 = s1 \<and> acc2 = acc1 \<and> rej2 = rej1 @ [conflict_rejection P config r tok s1])
        \<and> (highestVersion (rec_entityType r) (rec_entityId r) (syncLog s1) \<le> clientVersion r tok \<longrightarrow>
             (\<forall>msg. applyChange P r userId now s1 = Inl msg \<longrightarrow>
                s2 = s1 \<and> acc2 = acc1 \<and> rej2 = rej1 @ [rejected_with r msg])
           \<and> (\<forall>sa. applyChange P r userId now s1 = Inr sa \<and> rec_data r \<noteq> JUndefined
                     \<and> rec_id r \<notin> set (map log_id (syncLog s1)) \<longrightarrow>
                s2 = sa\<lparr>syncLog := syncLog s1 @ [appended_row P r userId now (syncLog s1)]\<rparr>
                \<and> acc2 = acc1 @ [rec_id r] \<and> rej2 = rej1)
           \<and> (\<forall>sa. applyChange P r userId now s1 = Inr sa
                     \<and> (rec_data r = JUndefined \<or> rec_id r \<in> set (map log_id (syncLog s1))) \<longrightarrow>
                s2 = sa \<and> acc2 = acc1
                \<and> rej2 = rej1 @ [rejected_with r (if rec_data r = JUndefined then checksum_error
                                                   else unique_violation)]))"
    if c: "map_of entityConfigs (rec_entityType r) = Some config"
      and h: "has_model P (cfg_tableName config)" for config
    using one unfolding pushRecord_registered[OF c h]
    by (auto split: if_splits sum.splits)
  have unreg: "s2 = s1 \<and> acc2 = acc1
          \<and> rej2 = rej1 @ [rejected_with r (''Entity type '' @ rec_entityType r @ '' not configured'')]"
    if "map_of entityConfigs (rec_entityType r) = None"
    using one unfolding pushRecord_unregistered[OF that] by simp
  have nomodel: "s2 = s1 \<and> acc2 = acc1
          \<and> rej2 = rej1 @ [rejected_with r (''Model '' @ cfg_tableName config @ '' not found'')]"
    if c: "map_of entityConfigs (rec_entityType r) = Some config"
      and h: "\<not> has_model P (cfg_tableName config)" for config
    using one unfolding pushRecord_no_model[OF c h] by simp
  from g reg unreg nomodel show ?thesis by blast
qed

theorem push_conflict_rule_witness:
  "clientVersion ex_record (ex_token 3)
     < highestVersion (rec_entityType ex_record) (rec_entityId ex_record) (syncLog ex_server)
   \<and> pushLoop mem_platform ''alice'' (ex_token 3) 1000 [ex_record] (ex_server, [], [])
       = (ex_server, [], [conflict_rejection mem_platform ex_task_config ex_record (ex_token 3) ex_server])
   \<and> highestVersion (rec_entityType ex_record) (rec_entityId ex_record) (syncLog ex_server)
       \<le> clientVersion ex_record (ex_token 5)
   \<and> fst (snd (pushLoop mem_platform ''alice'' (ex_token 5) 1000 [ex_record] (ex_server, [], [])))
       = [''r1'']
   \<and> map log_version
        (syncLog (fst (pushLoop mem_platform ''alice'' (ex_token 5) 1000 [ex_record] (ex_server, [], []))))
       = [5, 6]
   \<and> pushLoop mem_platform ''alice'' (ex_token 5) 1000 [ex_message] (ex_server, [], [])
       = (ex_server, [], [rejected_with ex_message ''Entity type message not configured''])"
proof -
  let ?run = "\<lambda>v. pushLoop mem_platform ''alice'' (ex_token v) 1000 ([] @ [ex_record]) (ex_server, [], [])"
  let ?push = "\<lambda>v. pushData mem_platform ''alice''
                 \<lparr>push_records = [] @ ex_record # [], push_syncToken = ex_token v\<rparr> 1000 ex_server"
  let ?runm = "pushLoop mem_platform ''alice'' (ex_token 5) 1000 ([] @ [ex_message]) (ex_server, [], [])"
  let ?pushm = "pushData mem_platform ''alice''
                 \<lparr>push_records = [] @ ex_message # [], push_syncToken = ex_token 5\<rparr> 1000 ex_server"
  have cfg: "map_of entityConfigs (rec_entityType ex_record) = Some ex_task_config"
    by (simp add: entityConfigs_def ex_defs)
  have model: "has_model mem_platform (cfg_tableName ex_task_config)"
    by (simp add: mem_platform_def ex_defs)
  have nocfg: "map_of entityConfigs (rec_entityType ex_message) = None"
    by (simp add: entityConfigs_def ex_defs)
  have before: "pushLoop mem_platform ''alice'' (ex_token v) 1000 [] (ex_server, [], [])
                = (ex_server, [], [])" for v
    by (simp add: pushLoop_Nil)
  have step: "?run v = (fst (?run v), fst (snd (?run v)), snd (snd (?run v)))" for v
    by simp
  have push: "?push v = (fst (?push v), snd (?push v))" for v
    by simp
  have stepm: "?runm = (fst ?runm, fst (snd ?runm), snd (snd ?runm))" by simp
  have pushm: "?pushm = (fst ?pushm, snd ?pushm)" by simp
  have hv: "highestVersion (rec_entityType ex_record) (rec_entityId ex_record) (syncLog ex_server) = 5"
    by (simp add: highestVersion_def highest_def ex_defs)
  have cv: "clientVersion ex_record (ex_token v) = v" for v
    by (simp add: clientVersion_def ex_defs)
  have app: "applyChange mem_platform ex_record ''alice'' 1000 ex_server
      = Inr (ex_server\<lparr>entities := [((''task'', ''T1''),
           JObj [(''id'', JStr ''T1''), (''title'', JStr ''b''), (''updatedAt'', JNum 1000)])]\<rparr>)"
    by (simp add: ex_defs run_defs)
  have fresh: "rec_id ex_record \<notin> set (map log_id (syncLog ex_server))"
    by (simp add: ex_defs)
  have data: "rec_data ex_record \<noteq> JUndefined"
    by (simp add: ex_defs)
  from push_conflict_rule[OF before step push, of 3] cfg model hv cv[of 3]
  have a: "?run 3 = (ex_server, [], [conflict_rejection mem_platform ex_task_config ex_record (ex_token 3) ex_server])"
    by (simp add: prod_eq_iff)
  from push_conflict_rule[OF before step push, of 5] cfg model hv cv[of 5] app fresh data
  have b: "fst (snd (?run 5)) = [''r1''] \<and> map log_version (syncLog (fst (?run 5))) = [5, 6]"
    by (simp add: ex_defs)
  from push_conflict_rule[OF before stepm pushm] nocfg
  have c: "?runm = (ex_server, [], [rejected_with ex_message ''Entity type message not configured''])"
    by (simp add: prod_eq_iff ex_message_def)
  from a b c hv cv[of 3] cv[of 5] show ?thesis by simp
qed

text \<open>
  C1 as stated fails: with the server version not above the client version, a record of an
  entity type that is not registered, and an update of a task that does not exist, are
  rejected with the message of the error, not accepted.
\<close>

theorem push_accepts_when_not_ahead_counterexample:
  "serverVersion ex_message ex_empty \<le> clientVersion ex_message (ex_token 0)
   \<and> pushData mem_platform ''alice'' \<lparr>push_records = [ex_message], push_syncToken = ex_token 0\<rparr>
       1000 ex_empty
     = (\<lparr>push_accepted = [],
         push_rejected = [\<lparr>rej_id = ''m1'', rej_reason = ''Entity type message not configured'',
                            rej_conflictData = None\<rparr>],
         push_newSyncToken = createSyncToken ''alice'' 1000 ex_empty,
         push_serverTimestamp = 1000\<rparr>, ex_empty)
   \<and> serverVersion ex_missing ex_server \<le> clientVersion ex_missing (ex_token 5)
   \<and> pushData mem_platform ''alice'' \<lparr>push_records = [ex_missing], push_syncToken = ex_token 5\<rparr>
       1000 ex_server
     = (\<lparr>push_accepted = [],
         push_rejected = [\<lparr>rej_id = ''r9'', rej_reason = ''Record to update not found'',
                            rej_conflictData = None\<rparr>],
         push_newSyncToken = createSyncToken ''alice'' 1000 ex_server,
         push_serverTimestamp = 1000\<rparr>, ex_server)"
  by (simp add: ex_defs run_defs)

text \<open>
  C2 (amended). A pushed record whose id is already in the audit log is never accepted and
  is reported in \<open>rejected\<close>, and the push appends no audit-log entry with that id: the rows
  with the id are the same before and after, and the processing of the record appends
  nothing. The reason is CONFLICT when the entity type is registered, the store has its table
  and the entity's version in the log is above the token's. Otherwise it is the message of
  the step that fails first: that the type is not configured, that the model is not found,
  the message of the entity write when it throws, and after an entity write that succeeds
  the message of the append, the error of the checksum for a record without a \<^verbatim>\<open>data\<close> field
  and the primary-key violation for any other.
\<close>

theorem resubmitted_id_rejected:
  assumes dup: "rec_id r \<in> set (map log_id (syncLog s))"
    and before: "pushLoop P userId tok now before (s, [], []) = (s1, acc1, rej1)"
    and step: "pushLoop P userId tok now (before @ [r]) (s, [], []) = (s2, acc2, rej2)"
    and push: "pushData P userId \<lparr>push_records = before @ r # after, push_syncToken = tok\<rparr> now s
               = (resp, s')"
  shows "rec_id r \<notin> set (push_accepted resp)
       \<and> rec_id r \<in> set (map rej_id (push_rejected resp))
       \<and> filter (\<lambda>x. log_id x = rec_id r) (syncLog s') = filter (\<lambda>x. log_id x = rec_id r) (syncLog s)
       \<and> syncLog s2 = syncLog s1 \<and> acc2 = acc1
       \<and> (\<forall>config.
            map_of entityConfigs (rec_entityType r) = Some config \<and> has_model P (cfg_tableName config) \<longrightarrow>
            (clientVersion r tok < highestVersion (rec_entityType r) (rec_entityId r) (syncLog s1) \<longrightarrow>
               s2 = s1 \<and> rej2 = rej1 @ [conflict_rejection P config r tok s1])
          \<and> (highestVersion (rec_entityType r) (rec_entityId r) (syncLog s1) \<le> clientVersion r tok \<longrightarrow>
               (\<forall>msg. applyChange P r userId now s1 = Inl msg \<longrightarrow>
                  s2 = s1 \<and> rej2 = rej1 @ [rejected_with r msg])
             \<and> (\<forall>sa. applyChange P r userId now s1 = Inr sa \<longrightarrow>
                  s2 = sa
                  \<and> rej2 = rej1 @ [rejected_with r (if rec_data r = JUndefined then checksum_error
                                                     else unique_violation)])))
       \<and> (map_of entityConfigs (rec_entityType r) = None \<longrightarrow>
            s2 = s1
            \<and> rej2 = rej1 @ [rejected_with r (''Entity type '' @ rec_entityType r @ '' not configured'')])
       \<and> (\<forall>config.
            map_of entityConfigs (rec_entityType r) = Some config \<and> \<not> has_model P (cfg_tableName config) \<longrightarrow>
            s2 = s1
            \<and> rej2 = rej1 @ [rejected_with r (''Model '' @ cfg_tableName config @ '' not found'')])"
proof -
  from pushData_loop[OF push]
  have loop: "pushLoop P userId tok now (before @ r # after) (s, [], [])
              = (s', push_accepted resp, push_rejected resp)" by simp
  from pushLoop_invariant[OF loop] obtain new where
    n: "syncLog s' = syncLog s @ new" "push_accepted resp = map log_id new"
       "versions_follow (syncLog s) new" by auto
  from versions_follow_ids[OF n(3)] dup have notnew: "rec_id r \<notin> set (map log_id new)" by auto
  then have c1: "rec_id r \<notin> set (push_accepted resp)" using n(2) by simp
  from pushLoop_mset[OF loop]
  have "rec_id r \<in># mset (push_accepted resp @ map rej_id (push_rejected resp))" by simp
  then have "rec_id r \<in> set (push_accepted resp @ map rej_id (push_rejected resp))"
    by (simp only: set_mset_mset)
  with c1 have c2: "rec_id r \<in> set (map rej_id (push_rejected resp))" by simp
  from notnew have "filter (\<lambda>x. log_id x = rec_id r) new = []"
    by (induction new) auto
  with n(1) have c3: "filter (\<lambda>x. log_id x = rec_id r) (syncLog s')
                      = filter (\<lambda>x. log_id x = rec_id r) (syncLog s)" by simp
  from pushLoop_invariant[OF before] obtain new1 where "syncLog s1 = syncLog s @ new1" by auto
  with dup have dup1: "rec_id r \<in> set (map log_id (syncLog s1))" by simp
  from before step have one: "pushRecord P userId tok now r (s1, acc1, rej1) = (s2, acc2, rej2)"
    by (simp add: pushLoop_snoc)
  from pushRecord_outcome[OF one] dup1 have c4: "syncLog s2 = syncLog s1 \<and> acc2 = acc1" by auto
  have reg: "(clientVersion r tok < highestVersion (rec_entityType r) (rec_entityId r) (syncLog s1) \<longrightarrow>
               s2 = s1 \<and> rej2 = rej1 @ [conflict_rejection P config r tok s1])
          \<and> (highestVersion (rec_entityType r) (rec_entityId r) (syncLog s1) \<le> clientVersion r tok \<longrightarrow>
               (\<forall>msg. applyChange P r userId now s1 = Inl msg \<longrightarrow>
                  s2 = s1 \<and> rej2 = rej1 @ [rejected_with r msg])
             \<and> (\<forall>sa. applyChange P r userId now s1 = Inr sa \<longrightarrow>
                  s2 = sa
                  \<and> rej2 = rej1 @ [rejected_with r (if rec_data r = JUndefined then checksum_error
                                                     else unique_violation)]))"
    if c: "map_of entityConfigs (rec_entityType r) = Some config"
      and h: "has_model P (cfg_tableName config)" for config
  proof -
    from one have eq: "(s2, acc2, rej2) =
      (if clientVersion r tok < highestVersion (rec_entityType r) (rec_entityId r) (syncLog s1)
       then (s1, acc1, rej1 @ [conflict_rejection P config r tok s1])
       else case applyChange P r userId now s1 of
              Inl msg \<Rightarrow> (s1, acc1, rej1 @ [rejected_with r msg])
            | Inr sa \<Rightarrow>
                (sa, acc1, rej1 @ [rejected_with r (if rec_data r = JUndefined then checksum_error
                                                    else unique_violation)]))"
      using dup1 unfolding pushRecord_registered[OF c h]
      by (cases "applyChange P r userId now s1") (auto split: if_splits)
    then show ?thesis by (auto split: if_splits sum.splits)
  qed
  have unreg: "s2 = s1
          \<and> rej2 = rej1 @ [rejected_with r (''Entity type '' @ rec_entityType r @ '' not configured'')]"
    if "map_of entityConfigs (rec_entityType r) = None"
    using one unfolding pushRecord_unregistered[OF that] by simp
  have nomodel: "s2 = s1
          \<and> rej2 = rej1 @ [rejected_with r (''Model '' @ cfg_tableName config @ '' not found'')]"
    if c: "map_of entityConfigs (rec_entityType r) = Some config"
      and h: "\<not> has_model P (cfg_tableName config)" for config
    using one unfolding pushRecord_no_model[OF c h] by simp
  from reg have reg': "\<forall>config.
            map_of entityConfigs (rec_entityType r) = Some config \<and> has_model P (cfg_tableName config) \<longrightarrow>
            (clientVersion r tok < highestVersion (rec_entityType r) (rec_entityId r) (syncLog s1) \<longrightarrow>
               s2 = s1 \<and> rej2 = rej1 @ [conflict_rejection P config r tok s1])
          \<and> (highestVersion (rec_entityType r) (rec_entityId r) (syncLog s1) \<le> clientVersion r tok \<longrightarrow>
               (\<forall>msg. applyChange P r userId now s1 = Inl msg \<longrightarrow>
                  s2 = s1 \<and> rej2 = rej1 @ [rejected_with r msg])
             \<and> (\<forall>sa. applyChange P r userId now s1 = Inr sa \<longrightarrow>
                  s2 = sa
                  \<and> rej2 = rej1 @ [rejected_with r (if rec_data r = JUndefined then checksum_error
                                                     else unique_violation)]))"
    by (intro allI impI) (elim conjE)
  from unreg have unreg': "map_of entityConfigs (rec_entityType r) = None \<longrightarrow>
            s2 = s1
            \<and> rej2 = rej1 @ [rejected_with r (''Entity type '' @ rec_entityType r @ '' not configured'')]"
    by (rule impI)
  from nomodel have nomodel': "\<forall>config.
            map_of entityConfigs (rec_entityType r) = Some config \<and> \<not> has_model P (cfg_tableName config) \<longrightarrow>
            s2 = s1
            \<and> rej2 = rej1 @ [rejected_with r (''Model '' @ cfg_tableName config @ '' not found'')]"
    by (intro allI impI) (elim conjE)
  show ?thesis
    by (intro conjI) (fact c1 c2 c3 c4[THEN conjunct1] c4[THEN conjunct2] reg' unreg' nomodel')+
qed

theorem resubmitted_id_rejected_witness:
  "rec_id ex_record \<in> set (map log_id (syncLog (snd ex_second_push)))
   \<and> push_accepted (fst ex_resubmit_push) = []
   \<and> map rej_id (push_rejected (fst ex_resubmit_push)) = [''r1'']
   \<and> map log_id (syncLog (snd ex_resubmit_push)) = [''a1'', ''r1'', ''r2'']"
proof -
  let ?tok = "push_newSyncToken (fst ex_second_push)"
  let ?s = "snd ex_second_push"
  let ?run = "pushLoop mem_platform ''alice'' ?tok 3000 ([] @ [ex_record]) (?s, [], [])"
  have dup: "rec_id ex_record \<in> set (map log_id (syncLog ?s))"
    by (simp add: ex_push_defs ex_defs run_defs)
  have before: "pushLoop mem_platform ''alice'' ?tok 3000 [] (?s, [], []) = (?s, [], [])"
    by (simp add: pushLoop_Nil)
  have step: "?run = (fst ?run, fst (snd ?run), snd (snd ?run))" by simp
  have push: "pushData mem_platform ''alice''
      \<lparr>push_records = [] @ ex_record # [], push_syncToken = ?tok\<rparr> 3000 ?s
      = (fst ex_resubmit_push, snd ex_resubmit_push)"
    by (simp add: ex_resubmit_push_def)
  have ids: "map log_id (syncLog (snd ex_resubmit_push)) = [''a1'', ''r1'', ''r2'']"
    by (simp add: ex_push_defs ex_defs run_defs)
  have len: "length (push_accepted (fst ex_resubmit_push))
             + length (push_rejected (fst ex_resubmit_push)) = 1"
    by (simp add: ex_push_defs ex_defs run_defs)
  from resubmitted_id_rejected[OF dup before step push]
  have "rec_id ex_record \<notin> set (push_accepted (fst ex_resubmit_push))"
    and "rec_id ex_record \<in> set (map rej_id (push_rejected (fst ex_resubmit_push)))"
    by simp_all
  with len have "push_accepted (fst ex_resubmit_push) = []
      \<and> map rej_id (push_rejected (fst ex_resubmit_push)) = [''r1'']"
    by (cases "push_accepted (fst ex_resubmit_push)"; cases "push_rejected (fst ex_resubmit_push)")
       (auto simp: ex_record_def)
  with dup ids show ?thesis by simp
qed

text \<open>
  C2 as stated fails: alice's first record is accepted, her second record changes the title
  again, and the first record, pushed once more with the current token, is rejected for its
  id after its entity write: the title of the first record is back, with no audit-log entry
  for the change.
\<close>

theorem resubmission_reapplies_counterexample:
  "push_accepted (fst ex_first_push) = [''r1'']
   \<and> push_accepted (fst ex_second_push) = [''r2'']
   \<and> entities (snd ex_second_push) =
       [((''task'', ''T1''),
         JObj [(''id'', JStr ''T1''), (''title'', JStr ''c''), (''updatedAt'', JNum 2000)])]
   \<and> push_accepted (fst ex_resubmit_push) = []
   \<and> push_rejected (fst ex_resubmit_push) =
       [\<lparr>rej_id = ''r1'', rej_reason = unique_violation, rej_conflictData = None\<rparr>]
   \<and> entities (snd ex_resubmit_push) =
       [((''task'', ''T1''),
         JObj [(''id'', JStr ''T1''), (''title'', JStr ''b''), (''updatedAt'', JNum 3000)])]
   \<and> syncLog (snd ex_resubmit_push) = syncLog (snd ex_second_push)"
  by (simp add: ex_push_defs ex_defs run_defs)

text \<open>
  C3. The claim: \<^verbatim>\<open>resolveConflict\<close> with CLIENT_WINS on the conflict of a rejected push
  succeeds and appends an entry with the rejected record's payload. The code at the scenario
  of the specification: the task is at version 5, alice pushes with version 3 and is
  rejected with CONFLICT; nothing is logged for the rejected record, so the resolution of
  that id throws \<^verbatim>\<open>Sync record not found\<close> and leaves the state as it was.
\<close>

theorem client_wins_on_rejected_record_fails:
  "pushData mem_platform ''alice'' \<lparr>push_records = [ex_record], push_syncToken = ex_token 3\<rparr>
     1000 ex_server
   = (\<lparr>push_accepted = [],
       push_rejected =
         [\<lparr>rej_id = ''r1'', rej_reason = ''CONFLICT'',
           rej_conflictData = Some
             \<lparr>cd_serverVersion = 5, cd_clientVersion = 3,
              cd_serverData = JObj [(''id'', JStr ''T1''), (''title'', JStr ''a'')],
              cd_clientData = JObj [(''title'', JStr ''b'')]\<rparr>\<rparr>],
       push_newSyncToken = createSyncToken ''alice'' 1000 ex_server,
       push_serverTimestamp = 1000\<rparr>, ex_server)
   \<and> resolveConflict mem_platform ''alice''
       \<lparr>res_recordId = ''r1'', res_strategy = ''CLIENT_WINS'', res_mergedData = None\<rparr>
       2000 ''u1'' ex_server
     = (Inl ''Sync record not found'', ex_server)"
  by (simp add: ex_defs run_defs resolveConflict_def findUnique_id_def)

text \<open>
  C4. The claim: records remain undelivered only when \<^verbatim>\<open>hasMore\<close> is true, and a pull
  with limit 2 against 5 matching records returns 2 records in timestamp order with
  \<^verbatim>\<open>hasMore = true\<close>. The code on five matching rows of two entity types: four records,
  the tasks before the projects, \<^verbatim>\<open>hasMore = false\<close>, and the fifth row not delivered. With
  the five rows in one entity type the pull does what the claim says.
\<close>

theorem pull_two_types_exceeds_limit:
  "length (filter (\<lambda>r. 0 < log_timestamp r \<and> log_userId r \<noteq> ''alice'') (syncLog ex_pull_server)) = 5
   \<and> pullData mem_platform ''alice'' (ex_pull_all (Some 2)) 1000 ex_pull_server
     = Inr \<lparr>pull_records =
              [ex_pulled ''a1'' ''task'' ''T1'' 10, ex_pulled ''a3'' ''task'' ''T2'' 30,
               ex_pulled ''a2'' ''project'' ''P1'' 20, ex_pulled ''a4'' ''project'' ''P2'' 40],
            pull_syncToken = createSyncToken ''alice'' 1000 ex_pull_server,
            pull_hasMore = False, pull_serverTimestamp = 1000\<rparr>"
  by (simp add: pull_defs ex_defs entityConfigs_def)

lemma pull_one_type_scenario:
  "pullData mem_platform ''alice''
     \<lparr>pull_lastSyncTimestamp = None, pull_entityTypes = None, pull_limit = Some 2\<rparr> 1000 ex_task_log
   = Inr \<lparr>pull_records = [ex_pulled ''a1'' ''task'' ''T1'' 10, ex_pulled ''a2'' ''task'' ''T4'' 20],
          pull_syncToken = createSyncToken ''alice'' 1000 ex_task_log,
          pull_hasMore = True, pull_serverTimestamp = 1000\<rparr>"
  by (simp add: pull_defs ex_task_log_def ex_defs entityConfigs_def)

text \<open>
  C5 (amended). The token returned by a pull and by a push carries, for each registered
  entity type, the highest version among the audit-log rows of that type written by the
  requesting user (0 if none), and no entry for any other type; it is computed from the log
  as the call leaves it, not copied from the request.
\<close>

theorem token_recomputed:
  "(\<forall>resp. pullData P userId preq now s = Inr resp \<longrightarrow>
      tok_entityVersions (pull_syncToken resp) =
        (\<lambda>t. if t \<in> set (map fst entityConfigs)
              then Some (highestOwnVersion t userId (syncLog s)) else None))
   \<and> tok_entityVersions (push_newSyncToken (fst (pushData P userId req now s))) =
        (\<lambda>t. if t \<in> set (map fst entityConfigs)
              then Some (highestOwnVersion t userId (syncLog (snd (pushData P userId req now s))))
              else None)"
proof -
  have pull: "tok_entityVersions (pull_syncToken resp) =
        (\<lambda>t. if t \<in> set (map fst entityConfigs)
              then Some (highestOwnVersion t userId (syncLog s)) else None)"
    if "pullData P userId preq now s = Inr resp" for resp
  proof -
    from that have "pull_syncToken resp = createSyncToken userId now s"
      by (auto simp: pullData_def Let_def split: sum.splits)
    then show ?thesis by (simp only: createSyncToken_versions)
  qed
  have "push_newSyncToken (fst (pushData P userId req now s))
        = createSyncToken userId now (snd (pushData P userId req now s))"
    by (simp add: pushData_def split: prod.splits)
  then have push: "tok_entityVersions (push_newSyncToken (fst (pushData P userId req now s))) =
        (\<lambda>t. if t \<in> set (map fst entityConfigs)
              then Some (highestOwnVersion t userId (syncLog (snd (pushData P userId req now s))))
              else None)"
    by (simp only: createSyncToken_versions)
  from pull push show ?thesis by blast
qed

theorem token_recomputed_witness:
  "pullData mem_platform ''bob'' (ex_pull_all None) 1000 ex_server
     = Inr \<lparr>pull_records = [], pull_syncToken = createSyncToken ''bob'' 1000 ex_server,
            pull_hasMore = False, pull_serverTimestamp = 1000\<rparr>
   \<and> tok_entityVersions (createSyncToken ''bob'' 1000 ex_server) ''task'' = Some 5
   \<and> tok_entityVersions (createSyncToken ''bob'' 1000 ex_server) ''message'' = None
   \<and> tok_entityVersions (push_newSyncToken (fst ex_first_push)) ''task'' = Some 6"
proof -
  have p: "pullData mem_platform ''bob'' (ex_pull_all None) 1000 ex_server
     = Inr \<lparr>pull_records = [], pull_syncToken = createSyncToken ''bob'' 1000 ex_server,
            pull_hasMore = False, pull_serverTimestamp = 1000\<rparr>"
    by (simp add: pull_defs ex_defs entityConfigs_def)
  have h5: "highestOwnVersion ''task'' ''bob'' (syncLog ex_server) = 5"
    by (simp add: highestOwnVersion_def highest_def ex_defs)
  have h6: "highestOwnVersion ''task'' ''alice'' (syncLog (snd ex_first_push)) = 6"
    by (simp add: highestOwnVersion_def highest_def ex_push_defs ex_defs run_defs)
  have reg: "''task'' \<in> set (map fst entityConfigs)" "''message'' \<notin> set (map fst entityConfigs)"
    by (simp_all add: entityConfigs_def)
  note t1 = token_recomputed[of mem_platform "''bob''" "ex_pull_all None" 1000 ex_server
      "\<lparr>push_records = [], push_syncToken = ex_token 0\<rparr>"]
  note t2 = token_recomputed[of mem_platform "''alice''" "ex_pull_all None" 1000 ex_server
      "\<lparr>push_records = [ex_record], push_syncToken = ex_token 5\<rparr>"]
  from t1 p have "tok_entityVersions (createSyncToken ''bob'' 1000 ex_server) =
        (\<lambda>t. if t \<in> set (map fst entityConfigs)
              then Some (highestOwnVersion t ''bob'' (syncLog ex_server)) else None)"
    by simp
  with h5 reg have a: "tok_entityVersions (createSyncToken ''bob'' 1000 ex_server) ''task'' = Some 5"
    "tok_entityVersions (createSyncToken ''bob'' 1000 ex_server) ''message'' = None"
    by simp_all
  from t2 have "tok_entityVersions (push_newSyncToken (fst ex_first_push)) =
        (\<lambda>t. if t \<in> set (map fst entityConfigs)
              then Some (highestOwnVersion t ''alice'' (syncLog (snd ex_first_push))) else None)"
    by (simp only: ex_first_push_def)
  with h6 reg have b: "tok_entityVersions (push_newSyncToken (fst ex_first_push)) ''task'' = Some 6"
    by simp
  from p a b show ?thesis by simp
qed

text \<open>
  C5 as stated fails: the log holds version 5 of a task written by bob, and the token that
  alice gets from a pull and from a push says 0 for tasks.
\<close>

theorem token_ignores_other_users_counterexample:
  "highestTypeVersion ''task'' (syncLog ex_server) = 5
   \<and> pullData mem_platform ''alice'' (ex_pull_all None) 1000 ex_server
     = Inr \<lparr>pull_records =
              [\<lparr>rec_id = ''a1'', rec_entityType = ''task'', rec_entityId = ''T1'',
                rec_action = ''UPDATE'',
                rec_data = JObj [(''id'', JStr ''T1''), (''title'', JStr ''a'')],
                rec_timestamp = 10, rec_userId = ''bob'', rec_version = 5\<rparr>],
            pull_syncToken = createSyncToken ''alice'' 1000 ex_server,
            pull_hasMore = False, pull_serverTimestamp = 1000\<rparr>
   \<and> tok_entityVersions (createSyncToken ''alice'' 1000 ex_server) ''task'' = Some 0
   \<and> snd (pushData mem_platform ''alice'' \<lparr>push_records = [], push_syncToken = ex_token 0\<rparr> 1000 ex_server)
       = ex_server
   \<and> tok_entityVersions (push_newSyncToken (fst (pushData mem_platform ''alice''
        \<lparr>push_records = [], push_syncToken = ex_token 0\<rparr> 1000 ex_server))) ''task'' = Some 0"
  by (simp add: highestTypeVersion_def highest_def pull_defs ex_defs run_defs)

text \<open>
  C6 (amended). Every record of a push batch is processed and yields exactly one entry, in
  \<open>accepted\<close> or in \<open>rejected\<close>: the ids of the two lists are the submitted ids with their
  multiplicities, so the lengths add up to the number of records, and when the submitted ids
  are pairwise distinct every id is in exactly one of the lists. A record whose application
  throws is rejected with the message of the error and without conflict data. A record whose
  processing leaves the state as it was (a conflict, or an entity write that throws) does not
  touch the others: without it the push accepts the same ids and ends in the same state.
\<close>

theorem push_partition:
  assumes push: "pushData P userId req now s = (resp, s')"
  shows "length (push_accepted resp) + length (push_rejected resp) = length (push_records req)
     \<and> mset (push_accepted resp @ map rej_id (push_rejected resp)) = mset (map rec_id (push_records req))
     \<and> (distinct (map rec_id (push_records req)) \<longrightarrow>
          distinct (push_accepted resp @ map rej_id (push_rejected resp)))
     \<and> (\<forall>before r after s1 acc1 rej1 msg.
          push_records req = before @ r # after
          \<and> pushLoop P userId (push_syncToken req) now before (s, [], []) = (s1, acc1, rej1)
          \<and> detectConflict P r (push_syncToken req) s1 = Inr None
          \<and> applyChange P r userId now s1 = Inl msg
          \<longrightarrow> (\<exists>rest. push_rejected resp = rej1 @ rejected_with r msg # rest))
     \<and> (\<forall>before r after.
          push_records req = before @ r # after
          \<and> fst (pushLoop P userId (push_syncToken req) now (before @ [r]) (s, [], []))
              = fst (pushLoop P userId (push_syncToken req) now before (s, [], []))
          \<longrightarrow> snd (pushData P userId (req\<lparr>push_records := before @ after\<rparr>) now s) = s'
            \<and> push_accepted (fst (pushData P userId (req\<lparr>push_records := before @ after\<rparr>) now s))
                = push_accepted resp)"
proof -
  let ?tok = "push_syncToken req"
  from pushData_loop[OF push]
  have loop: "pushLoop P userId ?tok now (push_records req) (s, [], [])
              = (s', push_accepted resp, push_rejected resp)" .
  from pushLoop_mset[OF loop]
  have m: "mset (push_accepted resp @ map rej_id (push_rejected resp))
           = mset (map rec_id (push_records req))" by simp
  from mset_eq_length[OF m]
  have l: "length (push_accepted resp) + length (push_rejected resp) = length (push_records req)"
    by simp
  from mset_eq_imp_distinct_iff[OF m]
  have d: "distinct (map rec_id (push_records req)) \<longrightarrow>
          distinct (push_accepted resp @ map rej_id (push_rejected resp))" by simp
  have t: "\<exists>rest. push_rejected resp = rej1 @ rejected_with r msg # rest"
    if h: "push_records req = before @ r # after"
      "pushLoop P userId ?tok now before (s, [], []) = (s1, acc1, rej1)"
      "detectConflict P r ?tok s1 = Inr None"
      "applyChange P r userId now s1 = Inl msg"
    for before r after s1 acc1 rej1 msg
  proof -
    from h(3,4) have "pushRecord P userId ?tok now r (s1, acc1, rej1)
         = (s1, acc1, rej1 @ [rejected_with r msg])"
      by (simp add: pushRecord.simps)
    with loop h(1,2) have "pushLoop P userId ?tok now after (s1, acc1, rej1 @ [rejected_with r msg])
         = (s', push_accepted resp, push_rejected resp)"
      by (simp add: pushLoop_split)
    from pushLoop_grows[OF this] show ?thesis by auto
  qed
  have i: "snd (pushData P userId (req\<lparr>push_records := before @ after\<rparr>) now s) = s'
            \<and> push_accepted (fst (pushData P userId (req\<lparr>push_records := before @ after\<rparr>) now s))
                = push_accepted resp"
    if h: "push_records req = before @ r # after"
      "fst (pushLoop P userId ?tok now (before @ [r]) (s, [], []))
              = fst (pushLoop P userId ?tok now before (s, [], []))"
    for before r after
  proof -
    obtain s1 acc1 rej1 where b: "pushLoop P userId ?tok now before (s, [], []) = (s1, acc1, rej1)"
      by (cases "pushLoop P userId ?tok now before (s, [], [])") auto
    obtain s2 acc2 rej2 where st: "pushRecord P userId ?tok now r (s1, acc1, rej1) = (s2, acc2, rej2)"
      by (cases "pushRecord P userId ?tok now r (s1, acc1, rej1)") auto
    from h(2) b st have same: "s2 = s1" by (simp add: pushLoop_snoc)
    from pushRecord_outcome[OF st] same have acc: "acc2 = acc1" by auto
    from loop h(1) b st same acc
    have "pushLoop P userId ?tok now after (s1, acc1, rej2) = (s', push_accepted resp, push_rejected resp)"
      by (simp add: pushLoop_split)
    from pushLoop_same_state[OF this, of rej1]
    have "fst (pushLoop P userId ?tok now after (s1, acc1, rej1)) = s'"
      and "fst (snd (pushLoop P userId ?tok now after (s1, acc1, rej1))) = push_accepted resp"
      by simp_all
    then show ?thesis
      by (auto simp: pushData_def pushLoop_append b split: prod.splits)
  qed
  from l m d t i show ?thesis by blast
qed

theorem push_partition_witness:
  "distinct (map rec_id [ex_missing, ex_record])
   \<and> push_accepted (fst (pushData mem_platform ''alice''
        \<lparr>push_records = [ex_missing, ex_record], push_syncToken = ex_token 5\<rparr> 1000 ex_server))
      = [''r1'']
   \<and> push_rejected (fst (pushData mem_platform ''alice''
        \<lparr>push_records = [ex_missing, ex_record], push_syncToken = ex_token 5\<rparr> 1000 ex_server))
      = [rejected_with ex_missing ''Record to update not found'']
   \<and> snd (pushData mem_platform ''alice''
        \<lparr>push_records = [ex_record], push_syncToken = ex_token 5\<rparr> 1000 ex_server)
      = snd (pushData mem_platform ''alice''
        \<lparr>push_records = [ex_missing, ex_record], push_syncToken = ex_token 5\<rparr> 1000 ex_server)"
proof -
  let ?req = "\<lparr>push_records = [ex_missing, ex_record], push_syncToken = ex_token 5\<rparr>"
  let ?push = "pushData mem_platform ''alice'' ?req 1000 ex_server"
  have run: "?push = (fst ?push, snd ?push)" by simp
  have d: "distinct (map rec_id (push_records ?req))" by (simp add: ex_defs)
  have split: "push_records ?req = [] @ ex_missing # [ex_record]" by simp
  have same: "fst (pushLoop mem_platform ''alice'' (push_syncToken ?req) 1000 ([] @ [ex_missing])
                     (ex_server, [], []))
              = fst (pushLoop mem_platform ''alice'' (push_syncToken ?req) 1000 [] (ex_server, [], []))"
    by (simp add: ex_defs run_defs)
  have acc: "push_accepted (fst ?push) = [''r1'']" by (simp add: ex_defs run_defs)
  have rej: "push_rejected (fst ?push) = [rejected_with ex_missing ''Record to update not found'']"
    by (simp add: ex_defs run_defs)
  from push_partition[OF run] split same
  have "snd (pushData mem_platform ''alice'' (?req\<lparr>push_records := [] @ [ex_record]\<rparr>) 1000 ex_server)
        = snd ?push" by blast
  with d acc rej show ?thesis by simp
qed

text \<open>
  C6 as stated fails for a batch that holds the same record twice: the id is accepted for
  the first copy and rejected for the second, so it is in both lists.
\<close>

theorem duplicate_id_in_both_lists_counterexample:
  "push_accepted (fst (pushData mem_platform ''alice''
      \<lparr>push_records = [ex_record, ex_record], push_syncToken = ex_token 5\<rparr> 1000 ex_server))
     = [''r1'']
   \<and> map rej_id (push_rejected (fst (pushData mem_platform ''alice''
      \<lparr>push_records = [ex_record, ex_record], push_syncToken = ex_token 5\<rparr> 1000 ex_server)))
     = [''r1'']"
  by (simp add: ex_defs run_defs)

text \<open>
  C7 (amended). Every accepted mutation appends one audit-log entry whose version is one
  above the highest version of its entity in the log as \<^verbatim>\<open>logSyncRecord\<close> read it before the
  insert (so 1 when it read none). When the highest version of the entity is the same at the
  insert as at the read, the version is one above the previous highest of the entity, and
  when no two rows of the log share a version of an entity before the insert, none do after
  it. That is so for a push and for a conflict resolution that run alone: the entries of a
  push are appended in the order of its accepted records, each one above the highest version
  of its entity among the rows before it, a resolution appends at most one such entry, and
  distinct versions stay distinct.
\<close>

theorem version_monotonicity:
  "(\<forall>s'. logSyncRecord_create P r userId now (nextVersion r s0) s = Inr s' \<longrightarrow>
       syncLog s' = syncLog s @ [appended_row P r userId now (syncLog s0)]
       \<and> log_version (appended_row P r userId now (syncLog s0))
           = highestVersion (rec_entityType r) (rec_entityId r) (syncLog s0) + 1
       \<and> (highestVersion (rec_entityType r) (rec_entityId r) (syncLog s)
            = highestVersion (rec_entityType r) (rec_entityId r) (syncLog s0) \<longrightarrow>
          versions_follow (syncLog s) [appended_row P r userId now (syncLog s0)]
          \<and> (distinct (map version_key (syncLog s)) \<longrightarrow> distinct (map version_key (syncLog s')))))
   \<and> (\<forall>resp s'. pushData P userId req now s = (resp, s') \<longrightarrow>
        (\<exists>new. syncLog s' = syncLog s @ new \<and> map log_id new = push_accepted resp
           \<and> versions_follow (syncLog s) new
           \<and> (distinct (map version_key (syncLog s)) \<longrightarrow> distinct (map version_key (syncLog s')))))
   \<and> (\<forall>out s'. resolveConflict P userId resolution now uuid s = (out, s') \<longrightarrow>
        (\<exists>new. syncLog s' = syncLog s @ new \<and> length new \<le> 1
           \<and> versions_follow (syncLog s) new
           \<and> (distinct (map version_key (syncLog s)) \<longrightarrow> distinct (map version_key (syncLog s')))))"
proof -
  let ?row = "appended_row P r userId now (syncLog s0)"
  have a: "syncLog s' = syncLog s @ [?row]
       \<and> log_version ?row = highestVersion (rec_entityType r) (rec_entityId r) (syncLog s0) + 1
       \<and> (highestVersion (rec_entityType r) (rec_entityId r) (syncLog s)
            = highestVersion (rec_entityType r) (rec_entityId r) (syncLog s0) \<longrightarrow>
          versions_follow (syncLog s) [?row]
          \<and> (distinct (map version_key (syncLog s)) \<longrightarrow> distinct (map version_key (syncLog s'))))"
    if ins: "logSyncRecord_create P r userId now (nextVersion r s0) s = Inr s'" for s'
  proof -
    from ins have app: "syncLog s' = syncLog s @ [?row]"
      and fresh: "rec_id r \<notin> set (map log_id (syncLog s))"
      by (auto simp: logSyncRecord_create_eq nextVersion_highest appended_row_def
          split: if_splits)
    have f: "versions_follow (syncLog s) [?row]"
      if "highestVersion (rec_entityType r) (rec_entityId r) (syncLog s)
            = highestVersion (rec_entityType r) (rec_entityId r) (syncLog s0)"
      using that fresh by simp
    have d: "distinct (map version_key (syncLog s'))"
      if "versions_follow (syncLog s) [?row]" and "distinct (map version_key (syncLog s))"
      using versions_follow_distinct[OF that] app by simp
    from app f d show ?thesis by simp
  qed
  have b: "\<exists>new. syncLog s' = syncLog s @ new \<and> map log_id new = push_accepted resp
           \<and> versions_follow (syncLog s) new
           \<and> (distinct (map version_key (syncLog s)) \<longrightarrow> distinct (map version_key (syncLog s')))"
    if push: "pushData P userId req now s = (resp, s')" for resp s'
  proof -
    from pushLoop_invariant[OF pushData_loop[OF push]] obtain new where
      n: "syncLog s' = syncLog s @ new" "push_accepted resp = map log_id new"
         "versions_follow (syncLog s) new" by auto
    from versions_follow_distinct[OF n(3)] n(1)
    have "distinct (map version_key (syncLog s)) \<longrightarrow> distinct (map version_key (syncLog s'))"
      by simp
    with n show ?thesis by auto
  qed
  have c: "\<exists>new. syncLog s' = syncLog s @ new \<and> length new \<le> 1
           \<and> versions_follow (syncLog s) new
           \<and> (distinct (map version_key (syncLog s)) \<longrightarrow> distinct (map version_key (syncLog s')))"
    if res: "resolveConflict P userId resolution now uuid s = (out, s')" for out s'
  proof -
    from resolveConflict_log[OF res] show ?thesis
    proof
      assume "syncLog s' = syncLog s"
      then have "syncLog s' = syncLog s @ [] \<and> length ([] :: sync_log_row list) \<le> 1
           \<and> versions_follow (syncLog s) []
           \<and> (distinct (map version_key (syncLog s)) \<longrightarrow> distinct (map version_key (syncLog s')))"
        by simp
      then show ?thesis by (rule exI)
    next
      assume "\<exists>record. syncLog s' = syncLog s @ [appended_row P record userId now (syncLog s)]
             \<and> rec_id record \<notin> set (map log_id (syncLog s))"
      then obtain rc where
        app: "syncLog s' = syncLog s @ [appended_row P rc userId now (syncLog s)]"
        and fresh: "rec_id rc \<notin> set (map log_id (syncLog s))" by blast
      let ?new = "[appended_row P rc userId now (syncLog s)]"
      from fresh have f: "versions_follow (syncLog s) ?new" by simp
      from versions_follow_distinct[OF f] app
      have "distinct (map version_key (syncLog s)) \<longrightarrow> distinct (map version_key (syncLog s'))"
        by simp
      with app f have "syncLog s' = syncLog s @ ?new \<and> length ?new \<le> 1
           \<and> versions_follow (syncLog s) ?new
           \<and> (distinct (map version_key (syncLog s)) \<longrightarrow> distinct (map version_key (syncLog s')))"
        by simp
      then show ?thesis by (rule exI)
    qed
  qed
  from a have a': "\<forall>s'. logSyncRecord_create P r userId now (nextVersion r s0) s = Inr s' \<longrightarrow>
       syncLog s' = syncLog s @ [?row]
       \<and> log_version ?row = highestVersion (rec_entityType r) (rec_entityId r) (syncLog s0) + 1
       \<and> (highestVersion (rec_entityType r) (rec_entityId r) (syncLog s)
            = highestVersion (rec_entityType r) (rec_entityId r) (syncLog s0) \<longrightarrow>
          versions_follow (syncLog s) [?row]
          \<and> (distinct (map version_key (syncLog s)) \<longrightarrow> distinct (map version_key (syncLog s'))))"
    by (intro allI impI)
  from b have b': "\<forall>resp s'. pushData P userId req now s = (resp, s') \<longrightarrow>
        (\<exists>new. syncLog s' = syncLog s @ new \<and> map log_id new = push_accepted resp
           \<and> versions_follow (syncLog s) new
           \<and> (distinct (map version_key (syncLog s)) \<longrightarrow> distinct (map version_key (syncLog s'))))"
    by (intro allI impI)
  from c have c': "\<forall>out s'. resolveConflict P userId resolution now uuid s = (out, s') \<longrightarrow>
        (\<exists>new. syncLog s' = syncLog s @ new \<and> length new \<le> 1
           \<and> versions_follow (syncLog s) new
           \<and> (distinct (map version_key (syncLog s)) \<longrightarrow> distinct (map version_key (syncLog s'))))"
    by (intro allI impI)
  show ?thesis by (intro conjI) (fact a' b' c')+
qed

theorem version_monotonicity_witness:
  "distinct (map version_key (syncLog ex_server))
   \<and> push_accepted (fst (pushData mem_platform ''alice''
         \<lparr>push_records = ex_batch, push_syncToken = ex_token 5\<rparr> 1000 ex_server)) = [''c1'', ''c2'']
   \<and> map version_key (syncLog (snd (pushData mem_platform ''alice''
         \<lparr>push_records = ex_batch, push_syncToken = ex_token 5\<rparr> 1000 ex_server)))
       = [(''task'', ''T1'', 5), (''task'', ''T2'', 1), (''task'', ''T2'', 2)]
   \<and> distinct (map version_key (syncLog (snd (pushData mem_platform ''alice''
         \<lparr>push_records = ex_batch, push_syncToken = ex_token 5\<rparr> 1000 ex_server))))
   \<and> logSyncRecord_create mem_platform ex_record ''alice'' 1000 (nextVersion ex_record ex_server)
        ex_race_1 = Inr (ex_race_1\<lparr>syncLog := syncLog ex_race_1 @
                           [appended_row mem_platform ex_record ''alice'' 1000 (syncLog ex_server)]\<rparr>)
   \<and> map version_key (syncLog ex_race_1 @
        [appended_row mem_platform ex_record ''alice'' 1000 (syncLog ex_server)])
       = [(''task'', ''T1'', 5), (''task'', ''T1'', 6)]"
proof -
  let ?req = "\<lparr>push_records = ex_batch, push_syncToken = ex_token 5\<rparr>"
  let ?push = "pushData mem_platform ''alice'' ?req 1000 ex_server"
  let ?row = "appended_row mem_platform ex_record ''alice'' 1000 (syncLog ex_server)"
  have d: "distinct (map version_key (syncLog ex_server))"
    by (simp add: ex_defs version_key_def)
  have run: "?push = (fst ?push, snd ?push)" by simp
  have acc: "push_accepted (fst ?push) = [''c1'', ''c2'']"
    by (simp add: ex_defs run_defs)
  have keys: "map version_key (syncLog (snd ?push))
       = [(''task'', ''T1'', 5), (''task'', ''T2'', 1), (''task'', ''T2'', 2)]"
    by (simp add: ex_defs run_defs version_key_def)
  have ins: "logSyncRecord_create mem_platform ex_record ''alice'' 1000
               (nextVersion ex_record ex_server) ex_race_1
             = Inr (ex_race_1\<lparr>syncLog := syncLog ex_race_1 @ [?row]\<rparr>)"
    by (simp add: logSyncRecord_create_eq nextVersion_highest appended_row_def ex_defs
        ex_race_defs)
  have hv: "highestVersion (rec_entityType ex_record) (rec_entityId ex_record) (syncLog ex_server) = 5"
    by (simp add: highestVersion_def highest_def ex_defs)
  note t = version_monotonicity[of mem_platform ex_record "''alice''" 1000 ex_server ex_server ?req
      "\<lparr>res_recordId = ''a1'', res_strategy = ''SERVER_WINS'', res_mergedData = None\<rparr>" "''u1''"]
  from t run d have "distinct (map version_key (syncLog (snd ?push)))" by blast
  moreover have "map version_key (syncLog ex_race_1 @ [?row])
       = [(''task'', ''T1'', 5), (''task'', ''T1'', 6)]"
    using hv by (simp add: version_key_def ex_defs ex_race_defs)
  ultimately show ?thesis using d acc keys ins by simp
qed

text \<open>
  C7 as stated fails when two pushes overlap. Alice and carol both hold a token with tasks
  at 5 and push an update of the same task. Each passes conflict detection and writes the
  task; each then reads 5 as the latest version, before the other has inserted; both inserts
  succeed, and the log has two entries of the task at version 6.
\<close>

theorem concurrent_pushes_share_version_counterexample:
  "detectConflict mem_platform ex_record (ex_token 5) ex_server = Inr None
   \<and> applyChange mem_platform ex_record ''alice'' 1000 ex_server = Inr ex_race_1
   \<and> detectConflict mem_platform ex_second (ex_token 5) ex_race_1 = Inr None
   \<and> applyChange mem_platform ex_second ''carol'' 1001 ex_race_1 = Inr ex_race_2
   \<and> nextVersion ex_record ex_race_2 = 6
   \<and> nextVersion ex_second ex_race_2 = 6
   \<and> logSyncRecord_create mem_platform ex_record ''alice'' 1000 6 ex_race_2 = Inr ex_race_3
   \<and> logSyncRecord_create mem_platform ex_second ''carol'' 1001 6 ex_race_3 = Inr ex_race_4
   \<and> map version_key (syncLog ex_race_4)
       = [(''task'', ''T1'', 5), (''task'', ''T1'', 6), (''task'', ''T1'', 6)]
   \<and> \<not> distinct (map version_key (syncLog ex_race_4))"
  by (simp add: ex_defs ex_push_defs ex_race_defs run_defs version_key_def)

text \<open>
  C10. For every user and every server state, \<^verbatim>\<open>getSyncStatus\<close> returns
  \<^verbatim>\<open>pendingChanges = 0\<close>, \<^verbatim>\<open>isOnline = true\<close> and \<^verbatim>\<open>syncInProgress = false\<close>; the
  \<^verbatim>\<open>userId\<close> is the caller's, and \<^verbatim>\<open>lastSyncTimestamp\<close> is the timestamp of the
  latest audit-log row of that user (the epoch when there is none), the only field read
  from the state.
\<close>

theorem getSyncStatus_constants:
  "st_pendingChanges (getSyncStatus userId s) = 0
   \<and> st_isOnline (getSyncStatus userId s) = True
   \<and> st_syncInProgress (getSyncStatus userId s) = False
   \<and> st_userId (getSyncStatus userId s) = userId
   \<and> st_lastSyncTimestamp (getSyncStatus userId s) =
       (case findFirst_desc log_timestamp (\<lambda>r. log_userId r = userId) (syncLog s) of
          None \<Rightarrow> 0 | Some r \<Rightarrow> log_timestamp r)"
  by (simp add: getSyncStatus_def Let_def)

section \<open>Properties of the client\<close>

text \<open>
  C8 (amended). For every sync cycle whose push response rejects an item of the queue for a
  reason other than CONFLICT, and does not accept its id, the item is in the queue after the
  cycle exactly as it was before it, its \<^verbatim>\<open>retryCount\<close> included: a cycle removes the
  accepted ids and changes no item.
\<close>

theorem rejected_item_stays_unchanged:
  assumes run: "triggerSync pullReply server now c = (ok, c')"
    and reply: "server (pushRequest (cl_syncQueue c) c) = Inr resp"
    and item: "q \<in> set (cl_syncQueue c)"
    and rejd: "x \<in> set (push_rejected resp)" "rej_id x = qi_id q" "rej_reason x \<noteq> ''CONFLICT''"
    and notacc: "qi_id q \<notin> set (push_accepted resp)"
  shows "q \<in> set (cl_syncQueue c')
       \<and> filter (\<lambda>z. qi_id z = qi_id q) (cl_syncQueue c')
           = filter (\<lambda>z. qi_id z = qi_id q) (cl_syncQueue c)
       \<and> set (cl_syncQueue c') \<subseteq> set (cl_syncQueue c)"
proof -
  from triggerSync_queue[OF run reply] show ?thesis
  proof
    assume "cl_syncQueue c' = cl_syncQueue c"
    with item show ?thesis by simp
  next
    assume f: "cl_syncQueue c' = filter (\<lambda>q. qi_id q \<notin> set (push_accepted resp)) (cl_syncQueue c)"
    have "filter (\<lambda>z. qi_id z = qi_id q) (filter (\<lambda>q. qi_id q \<notin> set (push_accepted resp)) (cl_syncQueue c))
          = filter (\<lambda>z. qi_id z = qi_id q) (cl_syncQueue c)"
      using notacc by (auto intro: filter_cong)
    with f item notacc show ?thesis by auto
  qed
qed

theorem rejected_item_stays_unchanged_witness:
  "ex_sync_server (pushRequest (cl_syncQueue ex_client) ex_client) = Inr ex_push_reply
   \<and> fst (triggerSync ex_pull_reply ex_sync_server 2000 ex_client) = True
   \<and> cl_syncQueue (snd (triggerSync ex_pull_reply ex_sync_server 2000 ex_client)) = [ex_item]"
proof -
  let ?run = "triggerSync ex_pull_reply ex_sync_server 2000 ex_client"
  have run: "?run = (fst ?run, snd ?run)" by simp
  have reply: "ex_sync_server (pushRequest (cl_syncQueue ex_client) ex_client) = Inr ex_push_reply"
    by (simp add: client_defs ex_defs run_defs)
  have item: "ex_item \<in> set (cl_syncQueue ex_client)" by (simp add: ex_client_def)
  have rejd: "\<lparr>rej_id = ''r9'', rej_reason = ''Record to update not found'',
               rej_conflictData = None\<rparr> \<in> set (push_rejected ex_push_reply)"
    "rej_id \<lparr>rej_id = ''r9'', rej_reason = ''Record to update not found'',
               rej_conflictData = None\<rparr> = qi_id ex_item"
    "rej_reason \<lparr>rej_id = ''r9'', rej_reason = ''Record to update not found'',
               rej_conflictData = None\<rparr> \<noteq> ''CONFLICT''"
    by (simp_all add: ex_push_reply_def ex_item_def)
  have notacc: "qi_id ex_item \<notin> set (push_accepted ex_push_reply)"
    by (simp add: ex_push_reply_def)
  have ok: "fst ?run = True"
    by (simp add: client_defs pull_defs ex_defs run_defs)
  have sub: "length (cl_syncQueue (snd ?run)) \<le> 1"
    by (simp add: client_defs pull_defs ex_defs run_defs)
  from rejected_item_stays_unchanged[OF run reply item rejd notacc]
  have "ex_item \<in> set (cl_syncQueue (snd ?run))" by simp
  with sub have "cl_syncQueue (snd ?run) = [ex_item]"
    by (cases "cl_syncQueue (snd ?run)") auto
  with reply ok show ?thesis by simp
qed

text \<open>
  C8 as stated fails: the queued update is rejected with the message of the store, the cycle
  succeeds, and the item is still queued with \<^verbatim>\<open>retryCount\<close> 0.
\<close>

theorem retry_count_not_incremented_counterexample:
  "ex_sync_server (pushRequest (cl_syncQueue ex_client) ex_client) = Inr ex_push_reply
   \<and> map rej_reason (push_rejected ex_push_reply) = [''Record to update not found'']
   \<and> map qi_retryCount (cl_syncQueue ex_client) = [0]
   \<and> fst (triggerSync ex_pull_reply ex_sync_server 2000 ex_client) = True
   \<and> map qi_id (cl_syncQueue (snd (triggerSync ex_pull_reply ex_sync_server 2000 ex_client))) = [''r9'']
   \<and> map qi_retryCount (cl_syncQueue (snd (triggerSync ex_pull_reply ex_sync_server 2000 ex_client))) = [0]"
  by (simp add: client_defs pull_defs ex_defs run_defs)

text \<open>
  C9. The reconnection loop started at attempt 0 ends, after at most \<open>maxRetries\<close> probes;
  the delay before probe \<open>n\<close> is \<open>min (1000 * 2 ^ n) 30000\<close> milliseconds; no probe before the
  last found the server; and either the last probe found it and \<^verbatim>\<open>retryAttempts\<close> is 0,
  or \<open>maxRetries\<close> probes were made, none found it, and \<^verbatim>\<open>retryAttempts\<close> is \<open>maxRetries\<close>.
\<close>

theorem retry_loop_bounded:
  "(case retryConnection maxRetries probes 0 (status, []) of
      (status', delays) \<Rightarrow>
        length delays \<le> maxRetries
        \<and> delays = map (\<lambda>n. min (1000 * 2 ^ n) 30000) [0..<length delays]
        \<and> (\<forall>n < length delays - 1. \<not> pr_isOnline (probes n))
        \<and> ((0 < length delays \<and> pr_isOnline (probes (length delays - 1))
             \<and> isOnline status' \<and> retryAttempts status' = 0)
           \<or> (length delays = maxRetries \<and> (\<forall>n < maxRetries. \<not> pr_isOnline (probes n))
              \<and> retryAttempts status' = maxRetries)))"
proof (cases "find (\<lambda>n. pr_isOnline (probes n)) [0..<maxRetries]")
  case None
  then have "\<forall>n < maxRetries. \<not> pr_isOnline (probes n)"
    by (auto simp: find_None_iff)
  with None show ?thesis
    by (simp add: retryConnection_closed backoff_delay_def)
next
  case (Some k)
  then have k: "k < maxRetries" "pr_isOnline (probes k)" "\<forall>n < k. \<not> pr_isOnline (probes n)"
    by (auto simp: find_Some_iff)
  with Some show ?thesis
    by (simp add: retryConnection_closed backoff_delay_def came_online_def del: upt_Suc)
qed

theorem retry_loop_bounded_witness:
  "retryConnection 3 (ex_probes 1) 0 (ex_status, [])
     = (ex_status\<lparr>isOnline := True, isSlowConnection := False, lastOnlineAt := Some 1000,
                  retryAttempts := 0\<rparr>, [1000, 2000])
   \<and> retryConnection 7 (ex_probes 9) 0 (ex_status, [])
     = (ex_status\<lparr>retryAttempts := 7\<rparr>, [1000, 2000, 4000, 8000, 16000, 30000, 30000])"
proof -
  have a: "retryConnection 3 (ex_probes 1) 0 (ex_status, [])
     = (ex_status\<lparr>isOnline := True, isSlowConnection := False, lastOnlineAt := Some 1000,
                  retryAttempts := 0\<rparr>, [1000, 2000])"
    by (simp add: retryConnection.simps ex_probes_def ex_status_def Let_def)
  have b: "retryConnection 7 (ex_probes 9) 0 (ex_status, [])
     = (ex_status\<lparr>retryAttempts := 7\<rparr>, [1000, 2000, 4000, 8000, 16000, 30000, 30000])"
    by (simp add: retryConnection.simps ex_probes_def ex_status_def Let_def)
  from retry_loop_bounded[of 3 "ex_probes 1" ex_status] retry_loop_bounded[of 7 "ex_probes 9" ex_status]
    a b show ?thesis by simp
qed

end
